theory Spec2Isabelle
  imports Complex_Main
begin

section \<open>Errors raised by the notebooks' code\<close>

text \<open>
  The Python exceptions that the modelled cells can raise. A model function returns
  \<open>py_error + 'a\<close>: \<open>Inl e\<close> is the raised exception, \<open>Inr v\<close> the returned value.
\<close>

datatype py_error = ZeroDivisionError | AssertionError | RuntimeError | AttributeError

section \<open>Two-dimensional arrays\<close>

text \<open>
  A two-dimensional numpy array or torch tensor: the rows as lists, and the length of
  the second axis kept beside them, so that an array with no rows still has a shape
  (\<open>np.zeros((0, 3)).shape == (0, 3)\<close>). Entries are real numbers: the rounding of the
  floating-point types is not modelled.
\<close>

record tensor2d =
  ncols :: nat
  rows :: "real list list"

definition shape :: "tensor2d \<Rightarrow> nat \<times> nat" where
  "shape X = (length (rows X), ncols X)"

text \<open>Every row of an array has the length of the second axis.\<close>

definition wf_tensor :: "tensor2d \<Rightarrow> bool" where
  "wf_tensor X = list_all (\<lambda>r. length r = ncols X) (rows X)"

section \<open>Data representation notebook: \<open>sparsity_ratio\<close>\<close>

text \<open>
  \<^verbatim>\<open>
  def sparsity_ratio(X):
      return 1.0 - np.count_nonzero(X) / float(X.shape[0] * X.shape[1])
  \<close>
  \<open>np.count_nonzero(X)\<close> is the number of entries of \<open>X\<close> that differ from zero, a Python
  int; dividing it by the float \<open>0.0\<close> raises \<open>ZeroDivisionError\<close>.
\<close>

definition count_nonzero :: "tensor2d \<Rightarrow> nat" where
  "count_nonzero X = length (filter (\<lambda>v. v \<noteq> 0) (concat (rows X)))"

definition sparsity_ratio :: "tensor2d \<Rightarrow> py_error + real" where
  "sparsity_ratio X =
     (let d = real (fst (shape X) * snd (shape X))
      in if d = 0 then Inl ZeroDivisionError
         else Inr (1 - real (count_nonzero X) / d))"

definition all_zero :: "tensor2d \<Rightarrow> bool" where
  "all_zero X = list_all (\<lambda>v. v = 0) (concat (rows X))"

section \<open>TensorBoard notebook: \<open>select_n_random\<close>\<close>

text \<open>
  \<^verbatim>\<open>
  def select_n_random(data, labels, n=100):
      assert len(data) == len(labels)
      perm = torch.randperm(len(data))
      return data[perm][:n], labels[perm][:n]
  \<close>
  \<open>torch.randperm(k)\<close> draws a permutation of \<open>0, ..., k - 1\<close>; the draw is an argument
  of the model, and \<open>is_randperm k perm\<close> says that \<open>perm\<close> is such a permutation.
  \<open>xs[perm]\<close> gathers the items of \<open>xs\<close> at the positions listed by \<open>perm\<close>, and \<open>xs[:n]\<close>
  is Python's slice: the first \<open>n\<close> items for \<open>n \<ge> 0\<close>, all but the last \<open>-n\<close> items for
  \<open>n < 0\<close>.
\<close>

definition is_randperm :: "nat \<Rightarrow> nat list \<Rightarrow> bool" where
  "is_randperm k perm = (sort perm = [0..<k])"

definition index_by :: "'a list \<Rightarrow> nat list \<Rightarrow> 'a list" where
  "index_by xs perm = map (\<lambda>i. xs ! i) perm"

definition slice_to :: "int \<Rightarrow> 'a list \<Rightarrow> 'a list" where
  "slice_to n xs =
     (if 0 \<le> n then take (nat n) xs else take (length xs - nat (- n)) xs)"

definition select_n_random ::
  "'a list \<Rightarrow> 'b list \<Rightarrow> int \<Rightarrow> nat list \<Rightarrow> py_error + ('a list \<times> 'b list)" where
  "select_n_random data labels n perm =
     (if length data \<noteq> length labels then Inl AssertionError
      else Inr (slice_to n (index_by data perm), slice_to n (index_by labels perm)))"

section \<open>Library operations on tensors\<close>

text \<open>
  Sequencing of calls that may raise: the first exception raised ends the computation.
\<close>

definition and_then :: "py_error + 'a \<Rightarrow> ('a \<Rightarrow> py_error + 'b) \<Rightarrow> py_error + 'b" where
  "and_then r f = (case r of Inl e \<Rightarrow> Inl e | Inr v \<Rightarrow> f v)"

text \<open>
  \<open>torch.nn.Linear(in_features, out_features)\<close> holds a weight of shape
  \<open>[out_features, in_features]\<close> and a bias of shape \<open>[out_features]\<close> (the NN notebook prints
  \<open>linear1.weight torch.Size([100, 1000])\<close> for \<open>Linear(1000, 100)\<close>). Applied to an input
  of shape \<open>[N, in_features]\<close> it returns \<open>input @ weight.T + bias\<close>; an input whose last
  axis is not \<open>in_features\<close> long raises \<open>RuntimeError\<close>. The values the constructor draws
  for the parameters are fields of the record.
\<close>

record linear =
  in_features :: nat
  out_features :: nat
  weight :: "real list list"
  bias :: "real list"

definition is_Linear :: "nat \<Rightarrow> nat \<Rightarrow> linear \<Rightarrow> bool" where
  "is_Linear i k L =
     (in_features L = i \<and> out_features L = k \<and> length (weight L) = k
      \<and> list_all (\<lambda>w. length w = i) (weight L) \<and> length (bias L) = k)"

definition dot :: "real list \<Rightarrow> real list \<Rightarrow> real" where
  "dot u v = sum_list (map2 (*) u v)"

definition Linear_forward :: "linear \<Rightarrow> tensor2d \<Rightarrow> py_error + tensor2d" where
  "Linear_forward L x =
     (if ncols x \<noteq> in_features L then Inl RuntimeError
      else Inr \<lparr>ncols = out_features L,
                rows = map (\<lambda>r. map2 (\<lambda>w b. dot r w + b) (weight L) (bias L)) (rows x)\<rparr>)"

text \<open>\<open>relu(x) = max(0, x)\<close>, entry by entry (\<open>F.relu\<close>, \<open>torch.relu\<close>).\<close>

definition relu :: "tensor2d \<Rightarrow> tensor2d" where
  "relu x = x\<lparr>rows := map (map (\<lambda>v. max 0 v)) (rows x)\<rparr>"

section \<open>Autoencoder notebook: the \<open>AE\<close> module\<close>

text \<open>
  \<^verbatim>\<open>
  class AE(nn.Module):
      def __init__(self, input_shape):
          super(AE, self).__init__()
          self.encoder_hidden_layer = nn.Linear(in_features=input_shape, out_features=128)
          self.encoder_output_layer = nn.Linear(128, 128)
          self.decoder_hidden_layer = nn.Linear(128, 128)
          self.decoder_output_layer = nn.Linear(128, input_shape)

      def forward(self, features):
          encoder = F.relu(self.encoder_hidden_layer(features))
          z = F.relu(self.encoder_output_layer(encoder))
          decoder = F.relu(self.decoder_hidden_layer(z))
          reconstructed = F.relu(self.decoder_output_layer(decoder))
          return reconstructed
  \<close>
  \<open>is_AE input_shape ae\<close> holds of every module that \<open>AE(input_shape)\<close> constructs, whatever
  the values of its parameters.
\<close>

record AE =
  encoder_hidden_layer :: linear
  encoder_output_layer :: linear
  decoder_hidden_layer :: linear
  decoder_output_layer :: linear

definition is_AE :: "nat \<Rightarrow> AE \<Rightarrow> bool" where
  "is_AE input_shape ae =
     (is_Linear input_shape 128 (encoder_hidden_layer ae)
      \<and> is_Linear 128 128 (encoder_output_layer ae)
      \<and> is_Linear 128 128 (decoder_hidden_layer ae)
      \<and> is_Linear 128 input_shape (decoder_output_layer ae))"

definition AE_forward :: "AE \<Rightarrow> tensor2d \<Rightarrow> py_error + tensor2d" where
  "AE_forward ae features =
     and_then (Linear_forward (encoder_hidden_layer ae) features) (\<lambda>a1.
     and_then (Linear_forward (encoder_output_layer ae) (relu a1)) (\<lambda>a2.
     and_then (Linear_forward (decoder_hidden_layer ae) (relu a2)) (\<lambda>a3.
     and_then (Linear_forward (decoder_output_layer ae) (relu a3)) (\<lambda>a4.
     Inr (relu a4)))))"

section \<open>NN notebook: the \<open>DynamicNet\<close> module\<close>

text \<open>
  \<^verbatim>\<open>
  class DynamicNet(torch.nn.Module):
      def __init__(self, D_in, H, D_out):
          super(DynamicNet, self).__init__()
          self.input_linear = torch.nn.Linear(D_in, H)
          self.middle_linear = torch.nn.Linear(H, H)
          self.output_linear = torch.nn.Linear(H, D_out)

      def forward(self, x):
          h_relu = torch.relu(self.input_linear(x))
          hidden_layers = random.randint(0, 3)
          for _ in range(hidden_layers):
              h_relu = torch.relu(self.middle_linear(h_relu))
          y_pred = self.output_linear(h_relu)
          return y_pred
  \<close>
  \<open>random.randint(0, 3)\<close> returns one of 0, 1, 2, 3. The number drawn is an argument of
  the model of \<open>forward\<close>, and \<open>randint a b\<close> is the set of numbers a draw can return.
\<close>

record DynamicNet =
  input_linear :: linear
  middle_linear :: linear
  output_linear :: linear

definition is_DynamicNet :: "nat \<Rightarrow> nat \<Rightarrow> nat \<Rightarrow> DynamicNet \<Rightarrow> bool" where
  "is_DynamicNet D_in H D_out net =
     (is_Linear D_in H (input_linear net) \<and> is_Linear H H (middle_linear net)
      \<and> is_Linear H D_out (output_linear net))"

definition randint :: "nat \<Rightarrow> nat \<Rightarrow> nat set" where
  "randint a b = {a..b}"

fun middle_loop :: "linear \<Rightarrow> nat \<Rightarrow> tensor2d \<Rightarrow> py_error + tensor2d" where
  "middle_loop L 0 h_relu = Inr h_relu"
| "middle_loop L (Suc k) h_relu =
     and_then (Linear_forward L h_relu) (\<lambda>a. middle_loop L k (relu a))"

definition DynamicNet_forward :: "DynamicNet \<Rightarrow> nat \<Rightarrow> tensor2d \<Rightarrow> py_error + tensor2d" where
  "DynamicNet_forward net hidden_layers x =
     and_then (Linear_forward (input_linear net) x) (\<lambda>a.
     and_then (middle_loop (middle_linear net) hidden_layers (relu a)) (\<lambda>h_relu.
     Linear_forward (output_linear net) h_relu))"

section \<open>Data loaders constructed by the notebooks\<close>

text \<open>
  \<open>torch.utils.data.DataLoader(dataset, batch_size=1, shuffle=False, ..., num_workers=0,
  ..., pin_memory=False, ...)\<close>: a keyword argument that a call leaves out takes the
  library's default. \<open>None\<close> stands for an argument the call does not pass.
\<close>

record dataloader =
  batch_size :: nat
  shuffle :: bool
  num_workers :: nat
  pin_memory :: bool

definition DataLoader ::
  "nat option \<Rightarrow> bool option \<Rightarrow> nat option \<Rightarrow> bool option \<Rightarrow> dataloader" where
  "DataLoader bs sh nw pm =
     \<lparr>batch_size = (case bs of None \<Rightarrow> 1 | Some b \<Rightarrow> b),
      shuffle = (case sh of None \<Rightarrow> False | Some b \<Rightarrow> b),
      num_workers = (case nw of None \<Rightarrow> 0 | Some n \<Rightarrow> n),
      pin_memory = (case pm of None \<Rightarrow> False | Some b \<Rightarrow> b)\<rparr>"

text \<open>
  Autoencoder notebook:
  \<^verbatim>\<open>
  train_loader = torch.utils.data.DataLoader(
      train_dataset, batch_size=128, shuffle=True, num_workers=4, pin_memory=True)
  test_loader = torch.utils.data.DataLoader(
      test_dataset, batch_size=32, shuffle=False, num_workers=4)
  \<close>
  TensorBoard notebook:
  \<^verbatim>\<open>
  trainloader = torch.utils.data.DataLoader(trainset, batch_size=4,
                                          shuffle=True, num_workers=2)
  testloader = torch.utils.data.DataLoader(testset, batch_size=4,
                                          shuffle=False, num_workers=2)
  \<close>
  No other cell of the notebooks constructs a \<open>DataLoader\<close>.
\<close>

definition train_loader :: dataloader where
  "train_loader = DataLoader (Some 128) (Some True) (Some 4) (Some True)"

definition test_loader :: dataloader where
  "test_loader = DataLoader (Some 32) (Some False) (Some 4) None"

definition trainloader :: dataloader where
  "trainloader = DataLoader (Some 4) (Some True) (Some 2) None"

definition testloader :: dataloader where
  "testloader = DataLoader (Some 4) (Some False) (Some 2) None"

definition notebook_dataloaders :: "dataloader list" where
  "notebook_dataloaders = [train_loader, test_loader, trainloader, testloader]"

section \<open>AutoGrad notebook: the bookkeeping of \<open>torch.autograd\<close>\<close>

text \<open>
  Modelled from the spec: \<open>torch.autograd\<close> is a third-party library and not part of the
  repository; the spec names calling \<open>.backward()\<close> twice without retaining the graph and
  accessing \<open>.grad\<close> on a non-leaf tensor as the library behaviour that the notebooks
  exhibit. The definitions of this section follow the documentation of \<open>tensor.backward\<close>
  and of the tensor attributes that the AutoGrad notebook quotes in its cells 29 and 34:
  \<^item> a tensor is a leaf when no operation on tensors requiring a gradient created it;
    otherwise its \<open>grad_fn\<close> is the backward function of the operation that created it;
  \<^item> \<open>backward\<close> differentiates the graph by the chain rule and accumulates gradients
    in the leaves that require a gradient, and in the tensors marked by \<open>retain_grad()\<close>;
  \<^item> unless \<open>retain_graph\<close> is true (it defaults to the value of \<open>create_graph\<close>), the
    graph used to compute the gradients is freed, and a backward pass through a freed
    graph raises \<open>RuntimeError\<close>;
  \<^item> reading \<open>.grad\<close> of a tensor that is not a leaf and does not retain its gradient
    gives \<open>None\<close> and a \<open>UserWarning\<close>.
  Tensors are objects that the notebook's variables refer to: the store lists them in
  the order of their creation, and a variable is the position of its tensor. The values
  of a tensor are kept as the flat list of its entries.
\<close>

datatype grad_fn =
    AddBackward0 nat real
  | MulBackward0 nat nat
  | MulBackward0_scalar nat real
  | MeanBackward0 nat

record tensor =
  data_t :: "real list"
  requires_grad :: bool
  grad_fn :: "grad_fn option"
  retains_grad :: bool
  grad :: "real list option"
  freed :: bool

type_synonym store = "tensor list"

definition is_leaf :: "tensor \<Rightarrow> bool" where
  "is_leaf t = (grad_fn t = None)"

text \<open>
  Modelled from the spec: the tensor that an operation returns. It requires a gradient
  when an operand does, and then records the operation as its \<open>grad_fn\<close>.
\<close>

definition result_of :: "real list \<Rightarrow> bool \<Rightarrow> grad_fn \<Rightarrow> tensor" where
  "result_of vals rg fn =
     \<lparr>data_t = vals, requires_grad = rg, grad_fn = (if rg then Some fn else None),
      retains_grad = False, grad = None, freed = False\<rparr>"

text \<open>
  Modelled from the spec: the operations that the notebook applies, \<open>torch.ones(...)\<close>
  with \<open>n\<close> entries, \<open>t + c\<close>, \<open>a * b\<close>, \<open>t * c\<close> and \<open>t.mean()\<close>. Each appends the new tensor to
  the store.
\<close>

definition ones :: "nat \<Rightarrow> bool \<Rightarrow> store \<Rightarrow> store" where
  "ones n rg s = s @ [\<lparr>data_t = replicate n 1, requires_grad = rg, grad_fn = None,
      retains_grad = False, grad = None, freed = False\<rparr>]"

definition add_scalar :: "nat \<Rightarrow> real \<Rightarrow> store \<Rightarrow> store" where
  "add_scalar a c s =
     s @ [result_of (map (\<lambda>v. v + c) (data_t (s ! a))) (requires_grad (s ! a))
            (AddBackward0 a c)]"

definition mul :: "nat \<Rightarrow> nat \<Rightarrow> store \<Rightarrow> store" where
  "mul a b s =
     s @ [result_of (map2 (*) (data_t (s ! a)) (data_t (s ! b)))
            (requires_grad (s ! a) \<or> requires_grad (s ! b)) (MulBackward0 a b)]"

definition mul_scalar :: "nat \<Rightarrow> real \<Rightarrow> store \<Rightarrow> store" where
  "mul_scalar a c s =
     s @ [result_of (map (\<lambda>v. v * c) (data_t (s ! a))) (requires_grad (s ! a))
            (MulBackward0_scalar a c)]"

definition mean :: "nat \<Rightarrow> store \<Rightarrow> store" where
  "mean a s =
     s @ [result_of [sum_list (data_t (s ! a)) / real (length (data_t (s ! a)))]
            (requires_grad (s ! a)) (MeanBackward0 a)]"

fun inputs :: "grad_fn \<Rightarrow> nat list" where
  "inputs (AddBackward0 a c) = [a]"
| "inputs (MulBackward0 a b) = [a, b]"
| "inputs (MulBackward0_scalar a c) = [a]"
| "inputs (MeanBackward0 a) = [a]"

text \<open>
  Modelled from the spec: the chain rule. \<open>accumulate\<close> adds a gradient to the one
  already there; \<open>push fn g s adj\<close> adds to the pending gradients \<open>adj\<close> what the operation
  \<open>fn\<close> passes to its operands when its result receives the gradient \<open>g\<close>.
\<close>

definition accumulate :: "real list option \<Rightarrow> real list \<Rightarrow> real list" where
  "accumulate old g = (case old of None \<Rightarrow> g | Some h \<Rightarrow> map2 (+) h g)"

definition contribute ::
  "nat \<Rightarrow> real list \<Rightarrow> store \<Rightarrow> real list option list \<Rightarrow> real list option list" where
  "contribute a g s adj =
     (if requires_grad (s ! a) then adj[a := Some (accumulate (adj ! a) g)] else adj)"

fun push ::
  "grad_fn \<Rightarrow> real list \<Rightarrow> store \<Rightarrow> real list option list \<Rightarrow> real list option list" where
  "push (AddBackward0 a c) g s adj = contribute a g s adj"
| "push (MulBackward0 a b) g s adj =
     contribute b (map2 (*) g (data_t (s ! a))) s
       (contribute a (map2 (*) g (data_t (s ! b))) s adj)"
| "push (MulBackward0_scalar a c) g s adj = contribute a (map (\<lambda>v. v * c) g) s adj"
| "push (MeanBackward0 a) g s adj =
     contribute a (replicate (length (data_t (s ! a)))
                     (sum_list g / real (length (data_t (s ! a))))) s adj"

text \<open>
  Modelled from the spec: a tensor that receives the gradient \<open>g\<close> keeps it, added to its
  \<open>.grad\<close>, when it is a leaf that requires a gradient or when \<open>retain_grad()\<close> marked it.
\<close>

definition receive :: "tensor \<Rightarrow> real list \<Rightarrow> tensor" where
  "receive t g =
     (if (is_leaf t \<and> requires_grad t) \<or> retains_grad t
      then t\<lparr>grad := Some (accumulate (grad t) g)\<rparr> else t)"

text \<open>
  Modelled from the spec: the backward pass over the tensors at positions below \<open>i\<close>,
  from the last created to the first. A tensor with a pending gradient receives it; if
  it has a \<open>grad_fn\<close> whose graph is already freed the pass raises \<open>RuntimeError\<close>,
  otherwise the gradient is passed on to the operands and the graph of the tensor is
  freed unless \<open>keep\<close> holds.
\<close>

fun sweep :: "bool \<Rightarrow> nat \<Rightarrow> store \<Rightarrow> real list option list \<Rightarrow> py_error + store" where
  "sweep keep 0 s adj = Inr s"
| "sweep keep (Suc i) s adj =
     (case adj ! i of
        None \<Rightarrow> sweep keep i s adj
      | Some g \<Rightarrow>
          (case grad_fn (s ! i) of
             None \<Rightarrow> sweep keep i (s[i := receive (s ! i) g]) adj
           | Some fn \<Rightarrow>
               if freed (s ! i) then Inl RuntimeError
               else sweep keep i (s[i := (receive (s ! i) g)\<lparr>freed := \<not> keep\<rparr>])
                      (push fn g s adj)))"

text \<open>
  Modelled from the spec: \<open>tensor.backward(gradient=None, retain_graph=None,
  create_graph=False)\<close>. \<open>retain_graph\<close> defaults to the value of \<open>create_graph\<close>; the tensor
  must require a gradient and, as no \<open>gradient\<close> argument is given, hold a single scalar.
\<close>

definition keeps_graph :: "bool option \<Rightarrow> bool \<Rightarrow> bool" where
  "keeps_graph retain_graph create_graph =
     (case retain_graph of None \<Rightarrow> create_graph | Some b \<Rightarrow> b)"

definition backward :: "nat \<Rightarrow> bool option \<Rightarrow> bool \<Rightarrow> store \<Rightarrow> py_error + store" where
  "backward t retain_graph create_graph s =
     (if \<not> requires_grad (s ! t) then Inl RuntimeError
      else if length (data_t (s ! t)) \<noteq> 1 then Inl RuntimeError
      else sweep (keeps_graph retain_graph create_graph) (Suc t) s
             ((replicate (length s) None)[t := Some [1]]))"

text \<open>
  Modelled from the spec: \<open>tensor.retain_grad()\<close>, a no-op on a leaf; the attribute
  \<open>tensor.grad\<close>, whose model returns the gradient and whether the read issues the
  \<open>UserWarning\<close> about a non-leaf tensor; and \<open>tensor.grad.zero_()\<close>.
\<close>

definition retain_grad :: "nat \<Rightarrow> store \<Rightarrow> py_error + store" where
  "retain_grad t s =
     (if \<not> requires_grad (s ! t) then Inl RuntimeError
      else if is_leaf (s ! t) then Inr s
      else Inr (s[t := (s ! t)\<lparr>retains_grad := True\<rparr>]))"

definition grad_attr :: "nat \<Rightarrow> store \<Rightarrow> real list option \<times> bool" where
  "grad_attr t s =
     (grad (s ! t),
      requires_grad (s ! t) \<and> \<not> is_leaf (s ! t) \<and> \<not> retains_grad (s ! t)
        \<and> grad (s ! t) = None)"

definition grad_zero :: "nat \<Rightarrow> store \<Rightarrow> py_error + store" where
  "grad_zero t s =
     (case grad (s ! t) of
        None \<Rightarrow> Inl AttributeError
      | Some g \<Rightarrow> Inr (s[t := (s ! t)\<lparr>grad := Some (map (\<lambda>v. 0) g)\<rparr>]))"

text \<open>
  Modelled from the spec: the stores that a sequence of these operations can produce
  from the empty store. An operand of an operation is a tensor that already exists.
\<close>

inductive reachable :: "store \<Rightarrow> bool" where
  start: "reachable []"
| ones: "reachable s \<Longrightarrow> reachable (ones n rg s)"
| add_scalar: "reachable s \<Longrightarrow> a < length s \<Longrightarrow> reachable (add_scalar a c s)"
| mul: "reachable s \<Longrightarrow> a < length s \<Longrightarrow> b < length s \<Longrightarrow> reachable (mul a b s)"
| mul_scalar: "reachable s \<Longrightarrow> a < length s \<Longrightarrow> reachable (mul_scalar a c s)"
| mean: "reachable s \<Longrightarrow> a < length s \<Longrightarrow> reachable (mean a s)"
| retain_grad: "reachable s \<Longrightarrow> t < length s \<Longrightarrow> retain_grad t s = Inr s' \<Longrightarrow> reachable s'"
| backward: "reachable s \<Longrightarrow> t < length s \<Longrightarrow> backward t rg cg s = Inr s' \<Longrightarrow> reachable s'"
| grad_zero: "reachable s \<Longrightarrow> t < length s \<Longrightarrow> grad_zero t s = Inr s' \<Longrightarrow> reachable s'"

text \<open>
  The cells of the AutoGrad notebook, by their execution counts. A statement that
  raises ends its cell and leaves the tensors as they were before it. The positions in
  the store: \<open>x\<close> is 0; the first \<open>y\<close>, \<open>y * y\<close>, \<open>z\<close> and \<open>out\<close> are 1 to 4; the \<open>y\<close>, \<open>y * y\<close>, \<open>z\<close>
  and \<open>out\<close> that cell 16 builds again are 5 to 8.
  \<^verbatim>\<open>
  In [6]:  x = torch.ones(2, 2, requires_grad=True)
  In [7]:  y = x + 2
  In [9]:  z = y * y * 3
           out = z.mean()
  In [11]: out.backward()
  In [15]: out.retain_grad()
           out.backward()
  In [16]: y = x + 2
           z = y * y * 3
           out = z.mean()
           out.retain_grad()
           out.backward(create_graph=True, retain_graph=True)
  In [18]: x.grad.zero_()
  In [19]: out.backward()
  \<close>
\<close>

definition run :: "(store \<Rightarrow> py_error + store) \<Rightarrow> store \<Rightarrow> store" where
  "run stmt s = (case stmt s of Inl e \<Rightarrow> s | Inr s' \<Rightarrow> s')"

definition after_In_9 :: store where
  "after_In_9 = mean 3 (mul_scalar 2 3 (mul 1 1 (add_scalar 0 2 (ones 4 True []))))"

definition after_In_11 :: store where
  "after_In_11 = run (backward 4 None False) after_In_9"

definition retained_In_15 :: store where
  "retained_In_15 = run (retain_grad 4) after_In_11"

definition after_In_15 :: store where
  "after_In_15 = run (backward 4 None False) retained_In_15"

definition rebuilt_In_16 :: store where
  "rebuilt_In_16 = mean 7 (mul_scalar 6 3 (mul 5 5 (add_scalar 0 2 after_In_15)))"

definition after_In_16 :: store where
  "after_In_16 = run (backward 8 (Some True) True) (run (retain_grad 8) rebuilt_In_16)"

definition after_In_18 :: store where
  "after_In_18 = run (grad_zero 0) after_In_16"

definition after_In_19 :: store where
  "after_In_19 = run (backward 8 None False) after_In_18"

text \<open>
  What a backward pass may change in a tensor, and the two invariants of the stores
  that the operations produce.
\<close>

definition touched :: "tensor \<Rightarrow> tensor \<Rightarrow> bool" where
  "touched t t' =
     (data_t t' = data_t t \<and> requires_grad t' = requires_grad t
      \<and> grad_fn t' = grad_fn t \<and> retains_grad t' = retains_grad t
      \<and> (grad t' \<noteq> grad t \<longrightarrow> (is_leaf t \<and> requires_grad t) \<or> retains_grad t))"

definition unpopulated :: "tensor \<Rightarrow> bool" where
  "unpopulated t =
     ((\<not> is_leaf t \<longrightarrow> requires_grad t)
      \<and> (\<not> is_leaf t \<and> \<not> retains_grad t \<longrightarrow> grad t = None))"

definition inputs_ok :: "store \<Rightarrow> bool" where
  "inputs_ok s =
     (\<forall>i<length s. \<forall>fn. grad_fn (s ! i) = Some fn \<longrightarrow> (\<forall>a \<in> set (inputs fn). a < length s))"

section \<open>AutoGrad notebook: the warm-up training loops\<close>

text \<open>
  The library primitives that the two warm-up loops apply to their arrays: the matrix
  product (\<open>a.dot(b)\<close>, \<open>a.mm(b)\<close>), the transpose (\<open>a.T\<close>, \<open>a.t()\<close>), the difference \<open>a - b\<close>
  and the multiple \<open>c * a\<close> entry by entry, \<open>np.square(a).sum()\<close> (\<open>a.pow(2).sum()\<close>), and the
  masked assignment \<open>g[h < 0] = 0\<close>. \<open>np.maximum(h, 0)\<close> and \<open>h.clamp(min=0)\<close> are \<open>relu\<close>.
  The cell before each loop creates \<open>x\<close>, \<open>y\<close>, \<open>w1\<close> and \<open>w2\<close> with the shapes
  \<open>(N, D_in)\<close>, \<open>(N, D_out)\<close>, \<open>(D_in, H)\<close> and \<open>(H, D_out)\<close>; on operands of these shapes no
  operation of the loop raises or broadcasts, and the primitives are modelled for such
  operands.
\<close>

definition entry :: "tensor2d \<Rightarrow> nat \<Rightarrow> nat \<Rightarrow> real" where
  "entry a i j = rows a ! i ! j"

definition column :: "nat \<Rightarrow> tensor2d \<Rightarrow> real list" where
  "column j a = map (\<lambda>r. r ! j) (rows a)"

definition matmul :: "tensor2d \<Rightarrow> tensor2d \<Rightarrow> tensor2d" where
  "matmul a b =
     \<lparr>ncols = ncols b,
      rows = map (\<lambda>r. map (\<lambda>j. dot r (column j b)) [0..<ncols b]) (rows a)\<rparr>"

definition transposed :: "tensor2d \<Rightarrow> tensor2d" where
  "transposed a = \<lparr>ncols = length (rows a), rows = map (\<lambda>j. column j a) [0..<ncols a]\<rparr>"

definition sub :: "tensor2d \<Rightarrow> tensor2d \<Rightarrow> tensor2d" where
  "sub a b = \<lparr>ncols = ncols a, rows = map2 (map2 (-)) (rows a) (rows b)\<rparr>"

definition scale :: "real \<Rightarrow> tensor2d \<Rightarrow> tensor2d" where
  "scale c a = \<lparr>ncols = ncols a, rows = map (map ((*) c)) (rows a)\<rparr>"

definition square_sum :: "tensor2d \<Rightarrow> real" where
  "square_sum a = sum_list (map (\<lambda>r. sum_list (map (\<lambda>v. v\<^sup>2) r)) (rows a))"

definition zero_where_negative :: "tensor2d \<Rightarrow> tensor2d \<Rightarrow> tensor2d" where
  "zero_where_negative h g =
     \<lparr>ncols = ncols g,
      rows = map2 (map2 (\<lambda>hv gv. if hv < 0 then 0 else gv)) (rows h) (rows g)\<rparr>"

text \<open>
  The body of the loop, in numpy (cell \<open>In [3]\<close>); the cell \<open>In [5]\<close> is the same body
  with \<open>mm\<close>, \<open>clamp(min=0)\<close>, \<open>t()\<close> and \<open>clone()\<close>:
  \<^verbatim>\<open>
  for t in range(500):
      # Forward pass: compute predicted y
      h = x.dot(w1)
      h_relu = np.maximum(h, 0)
      y_pred = h_relu.dot(w2)
      # Compute and print loss
      loss = np.square(y_pred - y).sum()
      # Backprop to compute gradients of w1 and w2 with respect to loss
      grad_y_pred = 2.0 * (y_pred - y)
      grad_w2 = h_relu.T.dot(grad_y_pred)
      grad_h_relu = grad_y_pred.dot(w2.T)
      grad_h = grad_h_relu.copy()
      grad_h[h < 0] = 0
      grad_w1 = x.T.dot(grad_h)
      # Update weights
      w1 -= learning_rate * grad_w1
      w2 -= learning_rate * grad_w2
  \<close>
  \<open>loss_at x y w1 w2\<close> is the loss that an iteration computes from the weights, and
  \<open>backprop x y w1 w2\<close> the pair \<open>(grad_w1, grad_w2)\<close> of its hand-written backward pass.
  \<open>gradient_step\<close> is the update \<open>w -= learning_rate * grad\<close>.
\<close>

definition loss_at :: "tensor2d \<Rightarrow> tensor2d \<Rightarrow> tensor2d \<Rightarrow> tensor2d \<Rightarrow> real" where
  "loss_at x y w1 w2 =
     (let h = matmul x w1;
          h_relu = relu h;
          y_pred = matmul h_relu w2
      in square_sum (sub y_pred y))"

definition backprop ::
  "tensor2d \<Rightarrow> tensor2d \<Rightarrow> tensor2d \<Rightarrow> tensor2d \<Rightarrow> tensor2d \<times> tensor2d" where
  "backprop x y w1 w2 =
     (let h = matmul x w1;
          h_relu = relu h;
          y_pred = matmul h_relu w2;
          grad_y_pred = scale 2 (sub y_pred y);
          grad_w2 = matmul (transposed h_relu) grad_y_pred;
          grad_h_relu = matmul grad_y_pred (transposed w2);
          grad_h = zero_where_negative h grad_h_relu;
          grad_w1 = matmul (transposed x) grad_h
      in (grad_w1, grad_w2))"

definition gradient_step :: "real \<Rightarrow> tensor2d \<Rightarrow> tensor2d \<Rightarrow> tensor2d" where
  "gradient_step learning_rate w grad_w = sub w (scale learning_rate grad_w)"

definition warmup_step ::
  "real \<Rightarrow> tensor2d \<Rightarrow> tensor2d \<Rightarrow> tensor2d \<times> tensor2d \<Rightarrow> tensor2d \<times> tensor2d" where
  "warmup_step learning_rate x y w =
     (let grads = backprop x y (fst w) (snd w)
      in (gradient_step learning_rate (fst w) (fst grads),
          gradient_step learning_rate (snd w) (snd grads)))"

fun warmup_loop ::
  "nat \<Rightarrow> real \<Rightarrow> tensor2d \<Rightarrow> tensor2d \<Rightarrow> tensor2d \<times> tensor2d \<Rightarrow> tensor2d \<times> tensor2d" where
  "warmup_loop 0 learning_rate x y w = w"
| "warmup_loop (Suc t) learning_rate x y w =
     warmup_loop t learning_rate x y (warmup_step learning_rate x y w)"

text \<open>The array \<open>a\<close> with the entry at row \<open>i\<close> and column \<open>j\<close> replaced by \<open>v\<close>.\<close>

definition set_entry :: "tensor2d \<Rightarrow> nat \<Rightarrow> nat \<Rightarrow> real \<Rightarrow> tensor2d" where
  "set_entry a i j v = a\<lparr>rows := (rows a)[i := (rows a ! i)[j := v]]\<rparr>"

section \<open>Shapes of the loops' arrays, and concrete instances\<close>

text \<open>
  The shapes that the cells before the loops give to the arrays, and a small instance
  (\<open>N = 2\<close>, \<open>D_in = 2\<close>, \<open>H = 2\<close>, \<open>D_out = 1\<close>) at which the loop body is evaluated.
\<close>

definition loop_shapes ::
  "nat \<Rightarrow> nat \<Rightarrow> nat \<Rightarrow> nat \<Rightarrow> tensor2d \<Rightarrow> tensor2d \<Rightarrow> tensor2d \<Rightarrow> tensor2d \<Rightarrow> bool" where
  "loop_shapes N D_in H D_out x y w1 w2 =
     (wf_tensor x \<and> shape x = (N, D_in) \<and> wf_tensor y \<and> shape y = (N, D_out)
      \<and> wf_tensor w1 \<and> shape w1 = (D_in, H) \<and> wf_tensor w2 \<and> shape w2 = (H, D_out))"

definition demo_x :: tensor2d where "demo_x = \<lparr>ncols = 2, rows = [[1, 0], [0, 1]]\<rparr>"

definition demo_y :: tensor2d where "demo_y = \<lparr>ncols = 1, rows = [[1], [0]]\<rparr>"

definition demo_w1 :: tensor2d where "demo_w1 = \<lparr>ncols = 2, rows = [[1, - 1], [2, 1]]\<rparr>"

definition demo_w2 :: tensor2d where "demo_w2 = \<lparr>ncols = 1, rows = [[1], [1]]\<rparr>"

text \<open>
  Concrete modules and inputs at which the theorems below are evaluated: a
  \<open>DynamicNet(1, 1, 1)\<close> whose middle layer doubles its input, and an \<open>AE(2)\<close>.
\<close>

definition doubling_net :: DynamicNet where
  "doubling_net =
     \<lparr>input_linear = \<lparr>in_features = 1, out_features = 1, weight = [[1]], bias = [0]\<rparr>,
      middle_linear = \<lparr>in_features = 1, out_features = 1, weight = [[2]], bias = [0]\<rparr>,
      output_linear = \<lparr>in_features = 1, out_features = 1, weight = [[1]], bias = [0]\<rparr>\<rparr>"

definition small_AE :: AE where
  "small_AE =
     \<lparr>encoder_hidden_layer = \<lparr>in_features = 2, out_features = 128,
         weight = replicate 128 [1, 1], bias = replicate 128 0\<rparr>,
      encoder_output_layer = \<lparr>in_features = 128, out_features = 128,
         weight = replicate 128 (replicate 128 0), bias = replicate 128 1\<rparr>,
      decoder_hidden_layer = \<lparr>in_features = 128, out_features = 128,
         weight = replicate 128 (replicate 128 0), bias = replicate 128 1\<rparr>,
      decoder_output_layer = \<lparr>in_features = 128, out_features = 2,
         weight = replicate 2 (replicate 128 1), bias = [0, 1]\<rparr>\<rparr>"

section \<open>Properties of \<open>sparsity_ratio\<close>\<close>

lemma length_concat_uniform:
  "list_all (\<lambda>r. length r = c) rs \<Longrightarrow> length (concat rs) = length rs * c"
  by (induction rs) auto

lemma count_zero_iff:
  "length (filter (\<lambda>v. v \<noteq> (0::real)) xs) = 0 \<longleftrightarrow> list_all (\<lambda>v. v = 0) xs"
  by (induction xs) auto

lemma sparsity_ratio_eq:
  "sparsity_ratio X =
     (if length (rows X) * ncols X = 0 then Inl ZeroDivisionError
      else Inr (1 - real (count_nonzero X) / real (length (rows X) * ncols X)))"
  unfolding sparsity_ratio_def shape_def Let_def fst_conv snd_conv of_nat_eq_0_iff ..

lemma sparsity_ratio_range:
  assumes "wf_tensor X" and "0 < length (rows X) * ncols X"
  shows "0 \<le> 1 - real (count_nonzero X) / real (length (rows X) * ncols X)"
    and "1 - real (count_nonzero X) / real (length (rows X) * ncols X) \<le> 1"
    and "1 - real (count_nonzero X) / real (length (rows X) * ncols X) = 1 \<longleftrightarrow> all_zero X"
proof -
  define n where "n = length (rows X) * ncols X"
  define k where "k = count_nonzero X"
  have npos: "0 < n" using assms(2) by (simp add: n_def)
  have len: "length (concat (rows X)) = n"
    using assms(1) by (simp add: wf_tensor_def n_def length_concat_uniform)
  have kn: "k \<le> n"
    unfolding k_def count_nonzero_def
    using len length_filter_le [of _ "concat (rows X)"] by metis
  show "0 \<le> 1 - real (count_nonzero X) / real (length (rows X) * ncols X)"
    unfolding n_def [symmetric] k_def [symmetric] using kn npos by (simp add: divide_le_eq)
  show "1 - real (count_nonzero X) / real (length (rows X) * ncols X) \<le> 1"
    unfolding n_def [symmetric] k_def [symmetric] using npos by simp
  have "1 - real k / real n = 1 \<longleftrightarrow> k = 0"
    using npos by simp
  also have "\<dots> \<longleftrightarrow> all_zero X"
    unfolding k_def count_nonzero_def all_zero_def by (rule count_zero_iff)
  finally show "1 - real (count_nonzero X) / real (length (rows X) * ncols X) = 1
      \<longleftrightarrow> all_zero X"
    unfolding n_def k_def .
qed

text \<open>
  Claim C10. \<open>sparsity_ratio(X)\<close> returns
  \<open>1.0 - count_nonzero(X) / (X.shape[0] * X.shape[1])\<close>; for every two-dimensional array
  with \<open>X.shape[0] * X.shape[1] > 0\<close> that value lies in the closed interval from 0 to 1
  and is 1 exactly when \<open>X\<close> is all zeros; when \<open>X.shape[0] * X.shape[1] == 0\<close> the call
  fails with \<open>ZeroDivisionError\<close>.
\<close>

theorem sparsity_ratio_spec:
  "(wf_tensor X \<and> 0 < fst (shape X) * snd (shape X) \<longrightarrow>
      (\<exists>v. sparsity_ratio X = Inr v
         \<and> v = 1 - real (count_nonzero X) / real (fst (shape X) * snd (shape X))
         \<and> 0 \<le> v \<and> v \<le> 1 \<and> (v = 1 \<longleftrightarrow> all_zero X)))
   \<and> (fst (shape X) * snd (shape X) = 0 \<longrightarrow> sparsity_ratio X = Inl ZeroDivisionError)"
proof (intro conjI impI)
  assume a: "wf_tensor X \<and> 0 < fst (shape X) * snd (shape X)"
  then have wf: "wf_tensor X" and pos: "0 < length (rows X) * ncols X"
    by (simp_all add: shape_def)
  have "sparsity_ratio X = Inr (1 - real (count_nonzero X) / real (length (rows X) * ncols X))"
    using pos by (simp add: sparsity_ratio_eq)
  then show "\<exists>v. sparsity_ratio X = Inr v
         \<and> v = 1 - real (count_nonzero X) / real (fst (shape X) * snd (shape X))
         \<and> 0 \<le> v \<and> v \<le> 1 \<and> (v = 1 \<longleftrightarrow> all_zero X)"
    using sparsity_ratio_range [OF wf pos] by (simp add: shape_def)
next
  assume "fst (shape X) * snd (shape X) = 0"
  then show "sparsity_ratio X = Inl ZeroDivisionError"
    by (simp add: sparsity_ratio_eq shape_def)
qed

theorem sparsity_ratio_spec_witness:
  "wf_tensor \<lparr>ncols = 2, rows = [[0, 3], [0, 0]]\<rparr>
   \<and> 0 < fst (shape \<lparr>ncols = 2, rows = [[0, 3], [0, 0]]\<rparr>)
         * snd (shape \<lparr>ncols = 2, rows = [[0, 3], [0, 0]]\<rparr>)
   \<and> sparsity_ratio \<lparr>ncols = 2, rows = [[0, 3], [0, 0]]\<rparr> = Inr (3 / 4)
   \<and> \<not> all_zero \<lparr>ncols = 2, rows = [[0, 3], [0, 0]]\<rparr>
   \<and> fst (shape \<lparr>ncols = 3, rows = []\<rparr>) * snd (shape \<lparr>ncols = 3, rows = []\<rparr>) = 0
   \<and> sparsity_ratio \<lparr>ncols = 3, rows = []\<rparr> = Inl ZeroDivisionError"
proof -
  let ?X = "\<lparr>ncols = 2, rows = [[0, 3], [0, 0]]\<rparr>"
  let ?E = "\<lparr>ncols = 3, rows = []\<rparr>"
  have h1: "wf_tensor ?X" by (simp add: wf_tensor_def)
  have h2: "0 < fst (shape ?X) * snd (shape ?X)" by (simp add: shape_def)
  have h3: "fst (shape ?E) * snd (shape ?E) = 0" by (simp add: shape_def)
  have c: "count_nonzero ?X = 1" by (simp add: count_nonzero_def)
  have s: "fst (shape ?X) * snd (shape ?X) = 4" by (simp add: shape_def)
  from sparsity_ratio_spec [of ?X] h1 h2
  obtain v where v: "sparsity_ratio ?X = Inr v"
      "v = 1 - real (count_nonzero ?X) / real (fst (shape ?X) * snd (shape ?X))"
      "v = 1 \<longleftrightarrow> all_zero ?X"
    by blast
  have v34: "v = 3 / 4" unfolding v(2) c s by simp
  have nz: "\<not> all_zero ?X" using v(3) v34 by simp
  have z: "sparsity_ratio ?E = Inl ZeroDivisionError"
    using sparsity_ratio_spec [of ?E] h3 by blast
  show ?thesis using h1 h2 h3 v(1) v34 nz z by simp
qed

section \<open>Properties of \<open>select_n_random\<close>\<close>

lemma is_randperm_length: "is_randperm k perm \<Longrightarrow> length perm = k"
  unfolding is_randperm_def by (metis length_sort length_upt diff_zero)

lemma is_randperm_bound: "is_randperm k perm \<Longrightarrow> i < length perm \<Longrightarrow> perm ! i < k"
proof -
  assume a: "is_randperm k perm" and b: "i < length perm"
  have "set perm = set [0..<k]"
    using a unfolding is_randperm_def by (metis set_sort)
  then show ?thesis using b nth_mem by fastforce
qed

text \<open>
  Claim C9. \<open>select_n_random\<close> preserves the pairing of data and labels, for a number
  \<open>n \<ge> 0\<close> of datapoints to select: under its asserted precondition
  \<open>len(data) == len(labels)\<close> it returns, without raising, a pair of sequences to which
  one shared random permutation \<open>perm\<close> was applied. For every index \<open>i\<close> of the returned pair,
  the returned data item and the returned label at position \<open>i\<close> occur at a common position
  of the input sequences, the position \<open>perm[i]\<close>; each returned sequence has length
  \<open>min(n, len(data))\<close>.
\<close>

theorem select_n_random_pairing:
  assumes "length data = length labels" and "is_randperm (length data) perm" and "0 \<le> n"
  shows "\<exists>rd rl. select_n_random data labels n perm = Inr (rd, rl)
           \<and> int (length rd) = min n (int (length data))
           \<and> int (length rl) = min n (int (length data))
           \<and> (\<forall>i<length rd. \<exists>j<length data.
                  j = perm ! i \<and> rd ! i = data ! j \<and> rl ! i = labels ! j)"
proof -
  define rd where "rd = take (nat n) (index_by data perm)"
  define rl where "rl = take (nat n) (index_by labels perm)"
  have lp: "length perm = length data"
    using assms(2) by (rule is_randperm_length)
  have res: "select_n_random data labels n perm = Inr (rd, rl)"
    using assms(1,3) by (simp add: select_n_random_def slice_to_def rd_def rl_def)
  have lend: "int (length rd) = min n (int (length data))"
    using assms(3) by (simp add: rd_def index_by_def lp)
  have lenl: "int (length rl) = min n (int (length data))"
    using assms(3) by (simp add: rl_def index_by_def lp)
  have pair: "\<exists>j<length data. j = perm ! i \<and> rd ! i = data ! j \<and> rl ! i = labels ! j"
    if "i < length rd" for i
  proof -
    from that have i: "i < length perm" and im: "i < nat n"
      by (simp_all add: rd_def index_by_def)
    have "perm ! i < length data"
      using assms(2) i by (rule is_randperm_bound)
    moreover have "rd ! i = data ! (perm ! i)"
      using i im by (simp add: rd_def index_by_def)
    moreover have "rl ! i = labels ! (perm ! i)"
      using i im by (simp add: rl_def index_by_def)
    ultimately show ?thesis by blast
  qed
  show ?thesis using res lend lenl pair by blast
qed

theorem select_n_random_pairing_witness:
  "length [10, 20, 30::nat] = length [1, 2, 3::nat]
   \<and> is_randperm (length [10, 20, 30::nat]) [2, 0, 1]
   \<and> (0::int) \<le> 2
   \<and> (\<exists>rd rl. select_n_random [10, 20, 30::nat] [1, 2, 3::nat] 2 [2, 0, 1] = Inr (rd, rl)
         \<and> int (length rd) = min 2 (int (length [10, 20, 30::nat]))
         \<and> int (length rl) = min 2 (int (length [10, 20, 30::nat]))
         \<and> (\<forall>i<length rd. \<exists>j<length [10, 20, 30::nat].
               j = [2, 0, 1] ! i \<and> rd ! i = [10, 20, 30::nat] ! j \<and> rl ! i = [1, 2, 3::nat] ! j))"
proof -
  have h1: "length [10, 20, 30::nat] = length [1, 2, 3::nat]" by simp
  have h2: "is_randperm (length [10, 20, 30::nat]) [2, 0, 1]"
    by (simp add: is_randperm_def upt_rec)
  have h3: "(0::int) \<le> 2" by simp
  show ?thesis using h1 h2 h3 select_n_random_pairing [OF h1 h2 h3] by blast
qed

section \<open>Shapes through the \<open>AE\<close> and \<open>DynamicNet\<close> modules\<close>

lemma Linear_forward_shape:
  assumes "is_Linear i k L" and "shape x = (N, i)"
  shows "\<exists>y. Linear_forward L x = Inr y \<and> wf_tensor y \<and> shape y = (N, k)"
  using assms
  by (auto simp: is_Linear_def Linear_forward_def shape_def wf_tensor_def list_all_iff)

lemma relu_shape: "shape (relu x) = shape x"
  by (simp add: relu_def shape_def)

lemma relu_wf: "wf_tensor x \<Longrightarrow> wf_tensor (relu x)"
  by (simp add: relu_def wf_tensor_def list_all_iff)

lemma Linear_relu_step:
  assumes "is_Linear i k L" and "shape x = (N, i)"
  shows "\<exists>y. Linear_forward L x = Inr y \<and> wf_tensor (relu y) \<and> shape (relu y) = (N, k)"
  using Linear_forward_shape [OF assms] by (auto simp: relu_shape relu_wf)

text \<open>
  Claim C7. For every positive \<open>input_shape\<close> and batch size \<open>N\<close>, \<open>AE(input_shape).forward\<close>
  applied to a tensor of shape \<open>[N, input_shape]\<close> returns a tensor of the same shape
  \<open>[N, input_shape]\<close>.
\<close>

theorem AE_forward_shape:
  assumes "0 < input_shape" and "is_AE input_shape ae"
    and "wf_tensor features" and "shape features = (N, input_shape)"
  shows "\<exists>reconstructed. AE_forward ae features = Inr reconstructed
           \<and> wf_tensor reconstructed \<and> shape reconstructed = (N, input_shape)"
proof -
  from assms(2) have L: "is_Linear input_shape 128 (encoder_hidden_layer ae)"
      "is_Linear 128 128 (encoder_output_layer ae)"
      "is_Linear 128 128 (decoder_hidden_layer ae)"
      "is_Linear 128 input_shape (decoder_output_layer ae)"
    by (simp_all add: is_AE_def)
  obtain a1 where a1: "Linear_forward (encoder_hidden_layer ae) features = Inr a1"
      "shape (relu a1) = (N, 128)"
    using Linear_relu_step [OF L(1) assms(4)] by blast
  obtain a2 where a2: "Linear_forward (encoder_output_layer ae) (relu a1) = Inr a2"
      "shape (relu a2) = (N, 128)"
    using Linear_relu_step [OF L(2) a1(2)] by blast
  obtain a3 where a3: "Linear_forward (decoder_hidden_layer ae) (relu a2) = Inr a3"
      "shape (relu a3) = (N, 128)"
    using Linear_relu_step [OF L(3) a2(2)] by blast
  obtain a4 where a4: "Linear_forward (decoder_output_layer ae) (relu a3) = Inr a4"
      "wf_tensor (relu a4)" "shape (relu a4) = (N, input_shape)"
    using Linear_relu_step [OF L(4) a3(2)] by blast
  have "AE_forward ae features = Inr (relu a4)"
    by (simp add: AE_forward_def and_then_def a1(1) a2(1) a3(1) a4(1))
  then show ?thesis using a4 by blast
qed

theorem AE_forward_shape_witness:
  "(0::nat) < 2 \<and> is_AE 2 small_AE
   \<and> wf_tensor \<lparr>ncols = 2, rows = [[1, 2], [3, 4], [5, 6]]\<rparr>
   \<and> shape \<lparr>ncols = 2, rows = [[1, 2], [3, 4], [5, 6]]\<rparr> = (3, 2)
   \<and> (\<exists>reconstructed.
         AE_forward small_AE \<lparr>ncols = 2, rows = [[1, 2], [3, 4], [5, 6]]\<rparr> = Inr reconstructed
         \<and> wf_tensor reconstructed \<and> shape reconstructed = (3, 2))"
proof -
  let ?x = "\<lparr>ncols = 2, rows = [[1, 2], [3, 4], [5, 6]]\<rparr>"
  have h1: "(0::nat) < 2" by simp
  have h2: "is_AE 2 small_AE"
    by (simp add: is_AE_def small_AE_def is_Linear_def list_all_iff)
  have h3: "wf_tensor ?x" by (simp add: wf_tensor_def)
  have h4: "shape ?x = (3, 2)" by (simp add: shape_def)
  show ?thesis using h1 h2 h3 h4 AE_forward_shape [OF h1 h2 h3 h4] by blast
qed

lemma middle_loop_shape:
  assumes "is_Linear H H L"
  shows "wf_tensor h \<Longrightarrow> shape h = (N, H) \<Longrightarrow>
    \<exists>h'. middle_loop L k h = Inr h' \<and> wf_tensor h' \<and> shape h' = (N, H)"
proof (induction k arbitrary: h)
  case 0
  then show ?case by simp
next
  case (Suc k)
  obtain a where a: "Linear_forward L h = Inr a" "wf_tensor (relu a)" "shape (relu a) = (N, H)"
    using Linear_relu_step [OF assms Suc.prems(2)] by blast
  from Suc.IH [OF a(2) a(3)] show ?case by (simp add: and_then_def a(1))
qed

lemma DynamicNet_forward_shape:
  assumes "is_DynamicNet D_in H D_out net" and "shape x = (N, D_in)"
  shows "\<exists>y_pred. DynamicNet_forward net k x = Inr y_pred
           \<and> wf_tensor y_pred \<and> shape y_pred = (N, D_out)"
proof -
  from assms(1) have L: "is_Linear D_in H (input_linear net)"
      "is_Linear H H (middle_linear net)" "is_Linear H D_out (output_linear net)"
    by (simp_all add: is_DynamicNet_def)
  obtain a where a: "Linear_forward (input_linear net) x = Inr a"
      "wf_tensor (relu a)" "shape (relu a) = (N, H)"
    using Linear_relu_step [OF L(1) assms(2)] by blast
  obtain h where h: "middle_loop (middle_linear net) k (relu a) = Inr h" "shape h = (N, H)"
    using middle_loop_shape [OF L(2) a(2) a(3)] by blast
  obtain y where y: "Linear_forward (output_linear net) h = Inr y"
      "wf_tensor y" "shape y = (N, D_out)"
    using Linear_forward_shape [OF L(3) h(2)] by blast
  have "DynamicNet_forward net k x = Inr y"
    by (simp add: DynamicNet_forward_def and_then_def a(1) h(1) y(1))
  then show ?thesis using y by blast
qed

lemma doubling_net_is_DynamicNet: "is_DynamicNet 1 1 1 doubling_net"
  by (simp add: is_DynamicNet_def doubling_net_def is_Linear_def)

lemma doubling_net_draw_0:
  "DynamicNet_forward doubling_net 0 \<lparr>ncols = 1, rows = [[1]]\<rparr>
     = Inr \<lparr>ncols = 1, rows = [[1]]\<rparr>"
  by (simp add: DynamicNet_forward_def doubling_net_def Linear_forward_def relu_def
      and_then_def dot_def)

lemma doubling_net_draw_1:
  "DynamicNet_forward doubling_net 1 \<lparr>ncols = 1, rows = [[1]]\<rparr>
     = Inr \<lparr>ncols = 1, rows = [[2]]\<rparr>"
  by (simp add: DynamicNet_forward_def doubling_net_def Linear_forward_def relu_def
      and_then_def dot_def)

text \<open>
  Claim C8. \<open>DynamicNet.forward\<close> is not a deterministic function of its input and
  parameters: it draws \<open>random.randint(0, 3)\<close> and applies the shared \<open>middle_linear\<close> layer
  that many times, so for some fixed input and fixed parameter values two evaluations
  return different outputs; nevertheless, for every draw the output shape is
  \<open>[N, D_out]\<close> for an input of shape \<open>[N, D_in]\<close>.
\<close>

theorem DynamicNet_forward_not_deterministic:
  "(\<exists>net x k1 k2. is_DynamicNet 1 1 1 net \<and> wf_tensor x \<and> shape x = (1, 1)
        \<and> k1 \<in> randint 0 3 \<and> k2 \<in> randint 0 3
        \<and> DynamicNet_forward net k1 x \<noteq> DynamicNet_forward net k2 x)
   \<and> (is_DynamicNet D_in H D_out net \<and> wf_tensor x \<and> shape x = (N, D_in)
        \<and> hidden_layers \<in> randint 0 3 \<longrightarrow>
      (\<exists>y_pred. DynamicNet_forward net hidden_layers x = Inr y_pred
         \<and> wf_tensor y_pred \<and> shape y_pred = (N, D_out)))"
proof (intro conjI impI)
  let ?x = "\<lparr>ncols = 1, rows = [[1]]\<rparr>"
  have "wf_tensor ?x" "shape ?x = (1, 1)"
    by (simp_all add: wf_tensor_def shape_def)
  moreover have "(0::nat) \<in> randint 0 3" "(1::nat) \<in> randint 0 3"
    by (simp_all add: randint_def)
  moreover have "DynamicNet_forward doubling_net 0 ?x \<noteq> DynamicNet_forward doubling_net 1 ?x"
    unfolding doubling_net_draw_0 doubling_net_draw_1 by simp
  ultimately show "\<exists>net x k1 k2. is_DynamicNet 1 1 1 net \<and> wf_tensor x \<and> shape x = (1, 1)
        \<and> k1 \<in> randint 0 3 \<and> k2 \<in> randint 0 3
        \<and> DynamicNet_forward net k1 x \<noteq> DynamicNet_forward net k2 x"
    using doubling_net_is_DynamicNet by blast
next
  assume "is_DynamicNet D_in H D_out net \<and> wf_tensor x \<and> shape x = (N, D_in)
        \<and> hidden_layers \<in> randint 0 3"
  then show "\<exists>y_pred. DynamicNet_forward net hidden_layers x = Inr y_pred
         \<and> wf_tensor y_pred \<and> shape y_pred = (N, D_out)"
    using DynamicNet_forward_shape by blast
qed

theorem DynamicNet_forward_not_deterministic_witness:
  "is_DynamicNet 1 1 1 doubling_net
   \<and> wf_tensor \<lparr>ncols = 1, rows = [[1], [- 2]]\<rparr>
   \<and> shape \<lparr>ncols = 1, rows = [[1], [- 2]]\<rparr> = (2, 1)
   \<and> (3::nat) \<in> randint 0 3
   \<and> (\<exists>y_pred. DynamicNet_forward doubling_net 3 \<lparr>ncols = 1, rows = [[1], [- 2]]\<rparr> = Inr y_pred
         \<and> wf_tensor y_pred \<and> shape y_pred = (2, 1))"
proof -
  let ?x = "\<lparr>ncols = 1, rows = [[1], [- 2]]\<rparr>"
  have h1: "is_DynamicNet 1 1 1 doubling_net"
    by (simp add: is_DynamicNet_def doubling_net_def is_Linear_def)
  have h2: "wf_tensor ?x" by (simp add: wf_tensor_def)
  have h3: "shape ?x = (2, 1)" by (simp add: shape_def)
  have h4: "(3::nat) \<in> randint 0 3" by (simp add: randint_def)
  have "\<exists>y_pred. DynamicNet_forward doubling_net 3 ?x = Inr y_pred
         \<and> wf_tensor y_pred \<and> shape y_pred = (2, 1)"
    using DynamicNet_forward_not_deterministic [of 1 1 1 doubling_net ?x 2 3] h1 h2 h3 h4
    by blast
  then show ?thesis using h1 h2 h3 h4 by blast
qed

section \<open>Configuration of the data loaders\<close>

text \<open>
  Claim C6, as stated, fails: the first \<open>DataLoader\<close> of the autoencoder notebook is
  constructed with \<open>num_workers=4\<close> and \<open>pin_memory=True\<close>.
\<close>

theorem dataloader_defaults_counterexample:
  "\<not> (\<forall>d \<in> set notebook_dataloaders. num_workers d = 0 \<and> pin_memory d = False)"
  by (simp add: notebook_dataloaders_def train_loader_def DataLoader_def)

text \<open>
  Claim C6, amended. Every \<open>DataLoader\<close> constructed in the notebooks sets its
  worker-process count above the library default of 0: \<open>num_workers=4\<close> for the two
  loaders of the autoencoder notebook and \<open>num_workers=2\<close> for the two loaders of the
  TensorBoard notebook. The autoencoder's \<open>train_loader\<close> also sets \<open>pin_memory=True\<close>; the
  other three loaders leave \<open>pin_memory\<close> at its default \<open>False\<close>.
\<close>

theorem dataloader_configuration:
  "map (\<lambda>d. (num_workers d, pin_memory d)) notebook_dataloaders
     = [(4, True), (4, False), (2, False), (2, False)]"
  by (simp add: notebook_dataloaders_def train_loader_def test_loader_def trainloader_def
      testloader_def DataLoader_def)

section \<open>Properties of the backward pass\<close>

lemma sweep_SucE:
  assumes "sweep keep (Suc i) s adj = Inr r"
  obtains (skip) "adj ! i = None" "sweep keep i s adj = Inr r"
  | (leaf) g where "adj ! i = Some g" "grad_fn (s ! i) = None"
      "sweep keep i (s[i := receive (s ! i) g]) adj = Inr r"
  | (node) g fn where "adj ! i = Some g" "grad_fn (s ! i) = Some fn" "\<not> freed (s ! i)"
      "sweep keep i (s[i := (receive (s ! i) g)\<lparr>freed := \<not> keep\<rparr>]) (push fn g s adj) = Inr r"
  using assms by (auto split: option.splits if_splits)

lemma backward_InrD:
  assumes "backward t rg cg s = Inr r"
  shows "requires_grad (s ! t)" and "length (data_t (s ! t)) = 1"
    and "sweep (keeps_graph rg cg) (Suc t) s ((replicate (length s) None)[t := Some [1]]) = Inr r"
  using assms by (auto simp: backward_def split: if_splits)

lemma result_of_unpopulated: "unpopulated (result_of vals rg fn)"
  by (simp add: unpopulated_def result_of_def is_leaf_def)

lemma sweep_length: "sweep keep k s adj = Inr r \<Longrightarrow> length r = length s"
proof (induction k arbitrary: s adj)
  case 0
  then show ?case by simp
next
  case (Suc k)
  from Suc.prems show ?case
    by (cases rule: sweep_SucE) (auto dest: Suc.IH)
qed

lemma sweep_above: "sweep keep k s adj = Inr r \<Longrightarrow> k \<le> j \<Longrightarrow> r ! j = s ! j"
proof (induction k arbitrary: s adj)
  case 0
  then show ?case by simp
next
  case (Suc k)
  from Suc.prems(1) show ?case
    by (cases rule: sweep_SucE) (use Suc.prems(2) in \<open>auto dest!: Suc.IH\<close>)
qed

lemma touched_refl: "touched t t"
  by (simp add: touched_def)

lemma touched_receive: "touched t (receive t g)"
  by (simp add: touched_def receive_def is_leaf_def)

lemma touched_receive_freed: "touched t ((receive t g)\<lparr>freed := f\<rparr>)"
  by (simp add: touched_def receive_def is_leaf_def)

lemma touched_trans: "touched a b \<Longrightarrow> touched b c \<Longrightarrow> touched a c"
  by (auto simp: touched_def is_leaf_def)

lemma sweep_touched:
  "sweep keep k s adj = Inr r \<Longrightarrow> j < length s \<Longrightarrow> touched (s ! j) (r ! j)"
proof (induction k arbitrary: s adj)
  case 0
  then show ?case by (simp add: touched_refl)
next
  case (Suc k)
  from Suc.prems(1) show ?case
  proof (cases rule: sweep_SucE)
    case skip
    then show ?thesis using Suc.IH Suc.prems(2) by blast
  next
    case (leaf g)
    have "touched ((s[k := receive (s ! k) g]) ! j) (r ! j)"
      using Suc.IH [OF leaf(3)] Suc.prems(2) by simp
    moreover have "touched (s ! j) ((s[k := receive (s ! k) g]) ! j)"
      using Suc.prems(2) by (cases "j = k") (simp_all add: touched_refl touched_receive)
    ultimately show ?thesis by (rule touched_trans [rotated])
  next
    case (node g fn)
    have "touched ((s[k := (receive (s ! k) g)\<lparr>freed := \<not> keep\<rparr>]) ! j) (r ! j)"
      using Suc.IH [OF node(4)] Suc.prems(2) by simp
    moreover have "touched (s ! j) ((s[k := (receive (s ! k) g)\<lparr>freed := \<not> keep\<rparr>]) ! j)"
      using Suc.prems(2) by (cases "j = k") (simp_all add: touched_refl touched_receive_freed)
    ultimately show ?thesis by (rule touched_trans [rotated])
  qed
qed

lemma touched_unpopulated: "touched t t' \<Longrightarrow> unpopulated t \<Longrightarrow> unpopulated t'"
  by (auto simp: touched_def unpopulated_def is_leaf_def)

lemma backward_touched:
  "backward t rg cg s = Inr r \<Longrightarrow> j < length s \<Longrightarrow> touched (s ! j) (r ! j)"
  using backward_InrD(3) sweep_touched by blast

lemma backward_length: "backward t rg cg s = Inr r \<Longrightarrow> length r = length s"
  using backward_InrD(3) sweep_length by blast

lemma reachable_unpopulated: "reachable s \<Longrightarrow> \<forall>t<length s. unpopulated (s ! t)"
proof (induction rule: reachable.induct)
  case start
  then show ?case by simp
next
  case (ones s n rg)
  then show ?case by (auto simp: ones_def nth_append unpopulated_def is_leaf_def)
next
  case (add_scalar s a c)
  then show ?case by (auto simp: add_scalar_def nth_append result_of_unpopulated)
next
  case (mul s a b)
  then show ?case by (auto simp: mul_def nth_append result_of_unpopulated)
next
  case (mul_scalar s a c)
  then show ?case by (auto simp: mul_scalar_def nth_append result_of_unpopulated)
next
  case (mean s a)
  then show ?case by (auto simp: mean_def nth_append result_of_unpopulated)
next
  case (retain_grad s t s')
  then show ?case
    by (auto simp: retain_grad_def nth_list_update unpopulated_def is_leaf_def split: if_splits)
next
  case (backward s t rg cg s')
  then show ?case
    using backward_touched backward_length touched_unpopulated by metis
next
  case (grad_zero s t s')
  from grad_zero(3) obtain g where g: "grad (s ! t) = Some g"
    and s': "s' = s[t := (s ! t)\<lparr>grad := Some (map (\<lambda>v. 0) g)\<rparr>]"
    by (auto simp: grad_zero_def split: option.splits)
  show ?case
  proof (intro allI impI)
    fix j assume "j < length s'"
    then have j: "j < length s" by (simp add: s')
    then have u: "unpopulated (s ! j)" using grad_zero.IH by simp
    show "unpopulated (s' ! j)"
    proof (cases "j = t")
      case True
      then show ?thesis
        using u g j by (auto simp: s' unpopulated_def is_leaf_def)
    next
      case False
      then show ?thesis using u j by (simp add: s')
    qed
  qed
qed

lemma grad_attr_unretained:
  assumes "reachable s" "t < length s" "\<not> is_leaf (s ! t)" "\<not> retains_grad (s ! t)"
  shows "grad_attr t s = (None, True)"
  using reachable_unpopulated [OF assms(1)] assms(2-4)
  by (auto simp: grad_attr_def unpopulated_def)

lemma backward_root:
  assumes "t < length s" and "backward t rg cg s = Inr r"
  shows "grad_fn (s ! t) = None \<and> r ! t = receive (s ! t) [1]
         \<or> grad_fn (s ! t) \<noteq> None \<and> \<not> freed (s ! t)
            \<and> r ! t = (receive (s ! t) [1])\<lparr>freed := \<not> keeps_graph rg cg\<rparr>"
proof -
  let ?adj = "(replicate (length s) None)[t := Some [1]]"
  have adj: "?adj ! t = Some [1]" using assms(1) by simp
  from backward_InrD(3) [OF assms(2)] show ?thesis
  proof (cases rule: sweep_SucE)
    case skip
    from skip(1) adj have False by (metis option.distinct(1))
    then show ?thesis ..
  next
    case (leaf g)
    then have "g = [1]" using adj by (metis option.inject)
    then show ?thesis using leaf sweep_above [OF leaf(3), of t] assms(1) by simp
  next
    case (node g fn)
    then have "g = [1]" using adj by (metis option.inject)
    then show ?thesis using node sweep_above [OF node(4), of t] assms(1) by simp
  qed
qed

lemma backward_freed_raises:
  assumes "t < length s" "grad_fn (s ! t) \<noteq> None" "freed (s ! t)"
  shows "backward t rg cg s = Inl RuntimeError"
  using assms by (auto simp: backward_def)

lemma backward_twice_raises:
  assumes "t < length s" and "\<not> is_leaf (s ! t)" and "\<not> keeps_graph rg cg"
    and "backward t rg cg s = Inr s1"
  shows "backward t rg2 cg2 s1 = Inl RuntimeError"
proof -
  have len: "t < length s1" using assms(1) backward_length [OF assms(4)] by simp
  from backward_root [OF assms(1,4)] assms(2,3)
  have "r1": "s1 ! t = (receive (s ! t) [1])\<lparr>freed := True\<rparr>"
    by (auto simp: is_leaf_def)
  have "grad_fn (s1 ! t) \<noteq> None" "freed (s1 ! t)"
    using assms(2) by (simp_all add: r1 receive_def is_leaf_def)
  then show ?thesis using len by (rule backward_freed_raises [rotated])
qed

lemma push_cong:
  assumes "\<forall>a \<in> set (inputs fn). data_t (s' ! a) = data_t (s ! a)
              \<and> requires_grad (s' ! a) = requires_grad (s ! a)"
  shows "push fn g s' adj = push fn g s adj"
  using assms by (cases fn) (simp_all add: contribute_def)

lemma inputs_ok_update:
  assumes "inputs_ok s" and "grad_fn t' = grad_fn (s ! k)"
  shows "inputs_ok (s[k := t'])"
  unfolding inputs_ok_def
proof (intro allI impI ballI)
  fix i fn a
  assume i: "i < length (s[k := t'])" and fn: "grad_fn (s[k := t'] ! i) = Some fn"
    and a: "a \<in> set (inputs fn)"
  have "grad_fn (s ! i) = Some fn"
    using i fn assms(2) by (cases "i = k") simp_all
  then show "a < length (s[k := t'])"
    using assms(1) i a unfolding inputs_ok_def by simp
qed

lemma same_data_update:
  assumes "length s' = length s"
    and "\<forall>j<length s. data_t (s' ! j) = data_t (s ! j)
            \<and> requires_grad (s' ! j) = requires_grad (s ! j)"
    and "data_t t' = data_t (s' ! k)" and "requires_grad t' = requires_grad (s' ! k)"
    and "data_t t = data_t (s ! k)" and "requires_grad t = requires_grad (s ! k)"
  shows "\<forall>j<length (s[k := t]). data_t (s'[k := t'] ! j) = data_t (s[k := t] ! j)
            \<and> requires_grad (s'[k := t'] ! j) = requires_grad (s[k := t] ! j)"
proof (intro allI impI)
  fix j assume "j < length (s[k := t])"
  then have j: "j < length s" by simp
  show "data_t (s'[k := t'] ! j) = data_t (s[k := t] ! j)
            \<and> requires_grad (s'[k := t'] ! j) = requires_grad (s[k := t] ! j)"
    using j assms by (cases "j = k") simp_all
qed

lemma sweep_replay:
  assumes "length s' = length s" and "k \<le> length s" and "inputs_ok s"
    and "\<forall>j<length s. data_t (s' ! j) = data_t (s ! j) \<and> requires_grad (s' ! j) = requires_grad (s ! j)"
    and "\<forall>j<k. grad_fn (s' ! j) = grad_fn (s ! j) \<and> freed (s' ! j) = freed (s ! j)"
    and "\<forall>j<length s. k \<le> j \<longrightarrow> grad_fn (s' ! j) = grad_fn (s ! j)"
    and "sweep kp k s adj = Inr r"
  shows "\<exists>r'. sweep kp' k s' adj = Inr r'"
  using assms
proof (induction k arbitrary: s s' adj)
  case 0
  then show ?case by simp
next
  case (Suc k)
  have k: "k < length s" using Suc.prems(2) by simp
  have gf: "grad_fn (s' ! k) = grad_fn (s ! k)" and fr: "freed (s' ! k) = freed (s ! k)"
    using Suc.prems(5) by simp_all
  from Suc.prems(7) show ?case
  proof (cases rule: sweep_SucE)
    case skip
    have 2: "k \<le> length s" using k by simp
    have 5: "\<forall>j<k. grad_fn (s' ! j) = grad_fn (s ! j) \<and> freed (s' ! j) = freed (s ! j)"
      using Suc.prems(5) by simp
    have 6: "\<forall>j<length s. k \<le> j \<longrightarrow> grad_fn (s' ! j) = grad_fn (s ! j)"
    proof (intro allI impI)
      fix j assume "j < length s" "k \<le> j"
      then show "grad_fn (s' ! j) = grad_fn (s ! j)"
        using Suc.prems(6) gf by (cases "j = k") simp_all
    qed
    have "\<exists>r'. sweep kp' k s' adj = Inr r'"
      by (rule Suc.IH [OF Suc.prems(1) 2 Suc.prems(3,4) 5 6 skip(2)])
    then show ?thesis using skip(1) by simp
  next
    case (leaf g)
    let ?s = "s[k := receive (s ! k) g]" and ?s' = "s'[k := receive (s' ! k) g]"
    have 1: "length ?s' = length ?s" using Suc.prems(1) by simp
    have 2: "k \<le> length ?s" using k by simp
    have gfr: "grad_fn (receive t g) = grad_fn t" "data_t (receive t g) = data_t t"
        "requires_grad (receive t g) = requires_grad t" "freed (receive t g) = freed t" for t
      by (simp_all add: receive_def)
    have 3: "inputs_ok ?s"
      using Suc.prems(3) by (rule inputs_ok_update) (simp add: gfr)
    have 4: "\<forall>j<length ?s. data_t (?s' ! j) = data_t (?s ! j) \<and> requires_grad (?s' ! j) = requires_grad (?s ! j)"
      by (rule same_data_update [OF Suc.prems(1,4)]) (simp_all add: gfr)
    have 5: "\<forall>j<k. grad_fn (?s' ! j) = grad_fn (?s ! j) \<and> freed (?s' ! j) = freed (?s ! j)"
      using Suc.prems(5) by simp
    have 6: "\<forall>j<length ?s. k \<le> j \<longrightarrow> grad_fn (?s' ! j) = grad_fn (?s ! j)"
    proof (intro allI impI)
      fix j assume j: "j < length ?s" "k \<le> j"
      show "grad_fn (?s' ! j) = grad_fn (?s ! j)"
      proof (cases "j = k")
        case True
        then show ?thesis using k Suc.prems(1) gf by (simp add: gfr)
      next
        case False
        then have "Suc k \<le> j" using j(2) by simp
        then show ?thesis using False j(1) Suc.prems(6) by simp
      qed
    qed
    have "\<exists>r'. sweep kp' k ?s' adj = Inr r'"
      by (rule Suc.IH [OF 1 2 3 4 5 6 leaf(3)])
    then show ?thesis using leaf(1,2) gf by simp
  next
    case (node g fn)
    let ?s = "s[k := (receive (s ! k) g)\<lparr>freed := \<not> kp\<rparr>]"
    let ?s' = "s'[k := (receive (s' ! k) g)\<lparr>freed := \<not> kp'\<rparr>]"
    have 1: "length ?s' = length ?s" using Suc.prems(1) by simp
    have 2: "k \<le> length ?s" using k by simp
    have gfr: "grad_fn (receive t g) = grad_fn t" "data_t (receive t g) = data_t t"
        "requires_grad (receive t g) = requires_grad t" "freed (receive t g) = freed t" for t
      by (simp_all add: receive_def)
    have 3: "inputs_ok ?s"
      using Suc.prems(3) by (rule inputs_ok_update) (simp add: gfr)
    have 4: "\<forall>j<length ?s. data_t (?s' ! j) = data_t (?s ! j) \<and> requires_grad (?s' ! j) = requires_grad (?s ! j)"
      by (rule same_data_update [OF Suc.prems(1,4)]) (simp_all add: gfr)
    have 5: "\<forall>j<k. grad_fn (?s' ! j) = grad_fn (?s ! j) \<and> freed (?s' ! j) = freed (?s ! j)"
      using Suc.prems(5) by simp
    have 6: "\<forall>j<length ?s. k \<le> j \<longrightarrow> grad_fn (?s' ! j) = grad_fn (?s ! j)"
    proof (intro allI impI)
      fix j assume j: "j < length ?s" "k \<le> j"
      show "grad_fn (?s' ! j) = grad_fn (?s ! j)"
      proof (cases "j = k")
        case True
        then show ?thesis using k Suc.prems(1) gf by (simp add: gfr)
      next
        case False
        then have "Suc k \<le> j" using j(2) by simp
        then show ?thesis using False j(1) Suc.prems(6) by simp
      qed
    qed
    have "\<forall>a \<in> set (inputs fn). a < length s"
      using Suc.prems(3) k node(2) unfolding inputs_ok_def by blast
    then have pc: "push fn g s' adj = push fn g s adj"
      using Suc.prems(4) by (intro push_cong) simp
    have "\<exists>r'. sweep kp' k ?s' (push fn g s adj) = Inr r'"
      by (rule Suc.IH [OF 1 2 3 4 5 6 node(4)])
    then show ?thesis using node(1,2,3) gf fr pc by simp
  qed
qed

lemma sweep_keep_freed:
  "sweep True k s adj = Inr r \<Longrightarrow> j < length s \<Longrightarrow> freed (r ! j) = freed (s ! j)"
proof (induction k arbitrary: s adj)
  case 0
  then show ?case by simp
next
  case (Suc k)
  from Suc.prems(1) show ?case
  proof (cases rule: sweep_SucE)
    case skip
    then show ?thesis using Suc.IH Suc.prems(2) by blast
  next
    case (leaf g)
    have "freed (r ! j) = freed ((s[k := receive (s ! k) g]) ! j)"
      using Suc.IH [OF leaf(3)] Suc.prems(2) by simp
    then show ?thesis
      using Suc.prems(2) by (cases "j = k") (simp_all add: receive_def)
  next
    case (node g fn)
    have "freed (r ! j) = freed ((s[k := (receive (s ! k) g)\<lparr>freed := \<not> True\<rparr>]) ! j)"
      using Suc.IH [OF node(4)] Suc.prems(2) by simp
    then show ?thesis
      using Suc.prems(2) node(3) by (cases "j = k") simp_all
  qed
qed

lemma reachable_inputs_ok: "reachable s \<Longrightarrow> inputs_ok s"
proof (induction rule: reachable.induct)
  case start
  then show ?case by (simp add: inputs_ok_def)
next
  case (ones s n rg)
  then show ?case
    by (auto simp: inputs_ok_def ones_def nth_append less_Suc_eq)
next
  case (add_scalar s a c)
  then show ?case
    by (auto simp: inputs_ok_def add_scalar_def result_of_def nth_append less_Suc_eq split: if_splits)
next
  case (mul s a b)
  then show ?case
    by (auto simp: inputs_ok_def mul_def result_of_def nth_append less_Suc_eq split: if_splits)
next
  case (mul_scalar s a c)
  then show ?case
    by (auto simp: inputs_ok_def mul_scalar_def result_of_def nth_append less_Suc_eq split: if_splits)
next
  case (mean s a)
  then show ?case
    by (auto simp: inputs_ok_def mean_def result_of_def nth_append less_Suc_eq split: if_splits)
next
  case (retain_grad s t s')
  then show ?case
    by (auto simp: retain_grad_def split: if_splits intro: inputs_ok_update)
next
  case (backward s t rg cg s')
  show ?case unfolding inputs_ok_def
  proof (intro allI impI ballI)
    fix i fn a
    assume i: "i < length s'" and fn: "grad_fn (s' ! i) = Some fn" and a: "a \<in> set (inputs fn)"
    have len: "length s' = length s" using backward(3) by (rule backward_length)
    have "touched (s ! i) (s' ! i)" using backward(3) i len by (simp add: backward_touched)
    then have "grad_fn (s ! i) = Some fn" using fn by (simp add: touched_def)
    then show "a < length s'" using backward.IH i a len unfolding inputs_ok_def by simp
  qed
next
  case (grad_zero s t s')
  then show ?case
    by (auto simp: grad_zero_def split: option.splits intro: inputs_ok_update)
qed

lemma backward_again_succeeds:
  assumes "inputs_ok s" and "t < length s" and "keeps_graph rg cg"
    and "backward t rg cg s = Inr s1"
  shows "\<exists>s2. backward t rg2 cg2 s1 = Inr s2"
proof -
  have len: "length s1 = length s" using assms(4) by (rule backward_length)
  have sw: "sweep True (Suc t) s ((replicate (length s) None)[t := Some [1]]) = Inr s1"
    using backward_InrD(3) [OF assms(4)] assms(3) by simp
  have tch: "touched (s ! j) (s1 ! j)" if "j < length s" for j
    using sw that by (rule sweep_touched)
  have fr: "freed (s1 ! j) = freed (s ! j)" if "j < length s" for j
    using sw that by (rule sweep_keep_freed)
  have rg: "requires_grad (s1 ! t)" "length (data_t (s1 ! t)) = 1"
    using backward_InrD(1,2) [OF assms(4)] tch [OF assms(2)] by (simp_all add: touched_def)
  have "\<exists>r'. sweep (keeps_graph rg2 cg2) (Suc t) s1 ((replicate (length s) None)[t := Some [1]]) = Inr r'"
  proof (rule sweep_replay [OF len _ assms(1) _ _ _ sw])
    show "Suc t \<le> length s" using assms(2) by simp
    show "\<forall>j<length s. data_t (s1 ! j) = data_t (s ! j) \<and> requires_grad (s1 ! j) = requires_grad (s ! j)"
      using tch by (simp add: touched_def)
    show "\<forall>j<Suc t. grad_fn (s1 ! j) = grad_fn (s ! j) \<and> freed (s1 ! j) = freed (s ! j)"
      using tch fr assms(2) by (simp add: touched_def)
    show "\<forall>j<length s. Suc t \<le> j \<longrightarrow> grad_fn (s1 ! j) = grad_fn (s ! j)"
      using tch by (simp add: touched_def)
  qed
  then show ?thesis using rg by (simp add: backward_def len)
qed

lemma retain_then_backward:
  assumes "t < length s" and "\<not> is_leaf (s ! t)" and "retain_grad t s = Inr s1"
    and "backward t rg cg s1 = Inr s2"
  shows "\<exists>g. grad_attr t s2 = (Some g, False)"
proof -
  have s1: "s1 = s[t := (s ! t)\<lparr>retains_grad := True\<rparr>]"
    using assms(2,3) by (simp add: retain_grad_def split: if_splits)
  have t1: "t < length s1" "retains_grad (s1 ! t)"
    using assms(1) by (simp_all add: s1)
  from backward_root [OF t1(1) assms(4)] t1(2)
  have "grad (s2 ! t) = Some (accumulate (grad (s1 ! t)) [1])"
    by (auto simp: receive_def)
  then show ?thesis by (simp add: grad_attr_def)
qed

section \<open>The AutoGrad notebook in the model\<close>

text \<open>
  The cells of the notebook, evaluated in the model. The gradients agree with the
  outputs that the notebook records: \<open>x.grad\<close> is 4.5 after \<open>In [11]\<close>, 9 after \<open>In [16]\<close>
  (accumulated), 0 after \<open>In [18]\<close> and 4.5 after \<open>In [19]\<close>; the second backward pass of
  \<open>In [15]\<close> raises \<open>RuntimeError\<close>; \<open>out.grad\<close> is 2 after \<open>In [19]\<close>.
\<close>

lemmas graph_ops = mean_def mul_scalar_def mul_def add_scalar_def ones_def result_of_def
lemmas pass_ops = run_def backward_def keeps_graph_def retain_grad_def grad_zero_def
  is_leaf_def receive_def accumulate_def contribute_def eval_nat_numeral

lemma after_In_9_eq:
  "after_In_9 =
    [\<lparr>data_t = [1, 1, 1, 1], requires_grad = True, grad_fn = None,
        retains_grad = False, grad = None, freed = False\<rparr>,
     \<lparr>data_t = [3, 3, 3, 3], requires_grad = True, grad_fn = Some (AddBackward0 0 2),
        retains_grad = False, grad = None, freed = False\<rparr>,
     \<lparr>data_t = [9, 9, 9, 9], requires_grad = True, grad_fn = Some (MulBackward0 1 1),
        retains_grad = False, grad = None, freed = False\<rparr>,
     \<lparr>data_t = [27, 27, 27, 27], requires_grad = True,
        grad_fn = Some (MulBackward0_scalar 2 3),
        retains_grad = False, grad = None, freed = False\<rparr>,
     \<lparr>data_t = [27], requires_grad = True, grad_fn = Some (MeanBackward0 3),
        retains_grad = False, grad = None, freed = False\<rparr>]"
  by (simp add: after_In_9_def graph_ops eval_nat_numeral)

lemma In_11_eq:
  "backward 4 None False after_In_9 = Inr
    [\<lparr>data_t = [1, 1, 1, 1], requires_grad = True, grad_fn = None,
        retains_grad = False, grad = Some [9 / 2, 9 / 2, 9 / 2, 9 / 2], freed = False\<rparr>,
     \<lparr>data_t = [3, 3, 3, 3], requires_grad = True, grad_fn = Some (AddBackward0 0 2),
        retains_grad = False, grad = None, freed = True\<rparr>,
     \<lparr>data_t = [9, 9, 9, 9], requires_grad = True, grad_fn = Some (MulBackward0 1 1),
        retains_grad = False, grad = None, freed = True\<rparr>,
     \<lparr>data_t = [27, 27, 27, 27], requires_grad = True,
        grad_fn = Some (MulBackward0_scalar 2 3),
        retains_grad = False, grad = None, freed = True\<rparr>,
     \<lparr>data_t = [27], requires_grad = True, grad_fn = Some (MeanBackward0 3),
        retains_grad = False, grad = None, freed = True\<rparr>]"
  unfolding after_In_9_eq by (simp add: pass_ops)

lemma after_In_11_eq:
  "after_In_11 =
    [\<lparr>data_t = [1, 1, 1, 1], requires_grad = True, grad_fn = None,
        retains_grad = False, grad = Some [9 / 2, 9 / 2, 9 / 2, 9 / 2], freed = False\<rparr>,
     \<lparr>data_t = [3, 3, 3, 3], requires_grad = True, grad_fn = Some (AddBackward0 0 2),
        retains_grad = False, grad = None, freed = True\<rparr>,
     \<lparr>data_t = [9, 9, 9, 9], requires_grad = True, grad_fn = Some (MulBackward0 1 1),
        retains_grad = False, grad = None, freed = True\<rparr>,
     \<lparr>data_t = [27, 27, 27, 27], requires_grad = True,
        grad_fn = Some (MulBackward0_scalar 2 3),
        retains_grad = False, grad = None, freed = True\<rparr>,
     \<lparr>data_t = [27], requires_grad = True, grad_fn = Some (MeanBackward0 3),
        retains_grad = False, grad = None, freed = True\<rparr>]"
  unfolding after_In_11_def run_def In_11_eq by simp

lemma after_In_15_eq:
  "after_In_15 =
    [\<lparr>data_t = [1, 1, 1, 1], requires_grad = True, grad_fn = None,
        retains_grad = False, grad = Some [9 / 2, 9 / 2, 9 / 2, 9 / 2], freed = False\<rparr>,
     \<lparr>data_t = [3, 3, 3, 3], requires_grad = True, grad_fn = Some (AddBackward0 0 2),
        retains_grad = False, grad = None, freed = True\<rparr>,
     \<lparr>data_t = [9, 9, 9, 9], requires_grad = True, grad_fn = Some (MulBackward0 1 1),
        retains_grad = False, grad = None, freed = True\<rparr>,
     \<lparr>data_t = [27, 27, 27, 27], requires_grad = True,
        grad_fn = Some (MulBackward0_scalar 2 3),
        retains_grad = False, grad = None, freed = True\<rparr>,
     \<lparr>data_t = [27], requires_grad = True, grad_fn = Some (MeanBackward0 3),
        retains_grad = True, grad = None, freed = True\<rparr>]"
  unfolding after_In_15_def retained_In_15_def after_In_11_eq by (simp add: pass_ops)

lemma rebuilt_In_16_eq:
  "run (retain_grad 8) rebuilt_In_16 =
    [\<lparr>data_t = [1, 1, 1, 1], requires_grad = True, grad_fn = None,
        retains_grad = False, grad = Some [9 / 2, 9 / 2, 9 / 2, 9 / 2], freed = False\<rparr>,
     \<lparr>data_t = [3, 3, 3, 3], requires_grad = True, grad_fn = Some (AddBackward0 0 2),
        retains_grad = False, grad = None, freed = True\<rparr>,
     \<lparr>data_t = [9, 9, 9, 9], requires_grad = True, grad_fn = Some (MulBackward0 1 1),
        retains_grad = False, grad = None, freed = True\<rparr>,
     \<lparr>data_t = [27, 27, 27, 27], requires_grad = True,
        grad_fn = Some (MulBackward0_scalar 2 3),
        retains_grad = False, grad = None, freed = True\<rparr>,
     \<lparr>data_t = [27], requires_grad = True, grad_fn = Some (MeanBackward0 3),
        retains_grad = True, grad = None, freed = True\<rparr>,
     \<lparr>data_t = [3, 3, 3, 3], requires_grad = True, grad_fn = Some (AddBackward0 0 2),
        retains_grad = False, grad = None, freed = False\<rparr>,
     \<lparr>data_t = [9, 9, 9, 9], requires_grad = True, grad_fn = Some (MulBackward0 5 5),
        retains_grad = False, grad = None, freed = False\<rparr>,
     \<lparr>data_t = [27, 27, 27, 27], requires_grad = True,
        grad_fn = Some (MulBackward0_scalar 6 3),
        retains_grad = False, grad = None, freed = False\<rparr>,
     \<lparr>data_t = [27], requires_grad = True, grad_fn = Some (MeanBackward0 7),
        retains_grad = True, grad = None, freed = False\<rparr>]"
  unfolding rebuilt_In_16_def after_In_15_eq by (simp add: graph_ops pass_ops)

lemma In_16_eq:
  "backward 8 (Some True) True (run (retain_grad 8) rebuilt_In_16) = Inr
    [\<lparr>data_t = [1, 1, 1, 1], requires_grad = True, grad_fn = None,
        retains_grad = False, grad = Some [9, 9, 9, 9], freed = False\<rparr>,
     \<lparr>data_t = [3, 3, 3, 3], requires_grad = True, grad_fn = Some (AddBackward0 0 2),
        retains_grad = False, grad = None, freed = True\<rparr>,
     \<lparr>data_t = [9, 9, 9, 9], requires_grad = True, grad_fn = Some (MulBackward0 1 1),
        retains_grad = False, grad = None, freed = True\<rparr>,
     \<lparr>data_t = [27, 27, 27, 27], requires_grad = True,
        grad_fn = Some (MulBackward0_scalar 2 3),
        retains_grad = False, grad = None, freed = True\<rparr>,
     \<lparr>data_t = [27], requires_grad = True, grad_fn = Some (MeanBackward0 3),
        retains_grad = True, grad = None, freed = True\<rparr>,
     \<lparr>data_t = [3, 3, 3, 3], requires_grad = True, grad_fn = Some (AddBackward0 0 2),
        retains_grad = False, grad = None, freed = False\<rparr>,
     \<lparr>data_t = [9, 9, 9, 9], requires_grad = True, grad_fn = Some (MulBackward0 5 5),
        retains_grad = False, grad = None, freed = False\<rparr>,
     \<lparr>data_t = [27, 27, 27, 27], requires_grad = True,
        grad_fn = Some (MulBackward0_scalar 6 3),
        retains_grad = False, grad = None, freed = False\<rparr>,
     \<lparr>data_t = [27], requires_grad = True, grad_fn = Some (MeanBackward0 7),
        retains_grad = True, grad = Some [1], freed = False\<rparr>]"
  unfolding rebuilt_In_16_eq by (simp add: pass_ops)

lemma run_Inr: "stmt s = Inr s' \<Longrightarrow> run stmt s = s'"
  by (simp add: run_def)

lemma run_Inl: "stmt s = Inl e \<Longrightarrow> run stmt s = s"
  by (simp add: run_def)

lemma after_In_16_eq:
  "after_In_16 =
    [\<lparr>data_t = [1, 1, 1, 1], requires_grad = True, grad_fn = None,
        retains_grad = False, grad = Some [9, 9, 9, 9], freed = False\<rparr>,
     \<lparr>data_t = [3, 3, 3, 3], requires_grad = True, grad_fn = Some (AddBackward0 0 2),
        retains_grad = False, grad = None, freed = True\<rparr>,
     \<lparr>data_t = [9, 9, 9, 9], requires_grad = True, grad_fn = Some (MulBackward0 1 1),
        retains_grad = False, grad = None, freed = True\<rparr>,
     \<lparr>data_t = [27, 27, 27, 27], requires_grad = True,
        grad_fn = Some (MulBackward0_scalar 2 3),
        retains_grad = False, grad = None, freed = True\<rparr>,
     \<lparr>data_t = [27], requires_grad = True, grad_fn = Some (MeanBackward0 3),
        retains_grad = True, grad = None, freed = True\<rparr>,
     \<lparr>data_t = [3, 3, 3, 3], requires_grad = True, grad_fn = Some (AddBackward0 0 2),
        retains_grad = False, grad = None, freed = False\<rparr>,
     \<lparr>data_t = [9, 9, 9, 9], requires_grad = True, grad_fn = Some (MulBackward0 5 5),
        retains_grad = False, grad = None, freed = False\<rparr>,
     \<lparr>data_t = [27, 27, 27, 27], requires_grad = True,
        grad_fn = Some (MulBackward0_scalar 6 3),
        retains_grad = False, grad = None, freed = False\<rparr>,
     \<lparr>data_t = [27], requires_grad = True, grad_fn = Some (MeanBackward0 7),
        retains_grad = True, grad = Some [1], freed = False\<rparr>]"
  unfolding after_In_16_def by (rule run_Inr) (rule In_16_eq)

lemma after_In_18_eq:
  "after_In_18 =
    [\<lparr>data_t = [1, 1, 1, 1], requires_grad = True, grad_fn = None,
        retains_grad = False, grad = Some [0, 0, 0, 0], freed = False\<rparr>,
     \<lparr>data_t = [3, 3, 3, 3], requires_grad = True, grad_fn = Some (AddBackward0 0 2),
        retains_grad = False, grad = None, freed = True\<rparr>,
     \<lparr>data_t = [9, 9, 9, 9], requires_grad = True, grad_fn = Some (MulBackward0 1 1),
        retains_grad = False, grad = None, freed = True\<rparr>,
     \<lparr>data_t = [27, 27, 27, 27], requires_grad = True,
        grad_fn = Some (MulBackward0_scalar 2 3),
        retains_grad = False, grad = None, freed = True\<rparr>,
     \<lparr>data_t = [27], requires_grad = True, grad_fn = Some (MeanBackward0 3),
        retains_grad = True, grad = None, freed = True\<rparr>,
     \<lparr>data_t = [3, 3, 3, 3], requires_grad = True, grad_fn = Some (AddBackward0 0 2),
        retains_grad = False, grad = None, freed = False\<rparr>,
     \<lparr>data_t = [9, 9, 9, 9], requires_grad = True, grad_fn = Some (MulBackward0 5 5),
        retains_grad = False, grad = None, freed = False\<rparr>,
     \<lparr>data_t = [27, 27, 27, 27], requires_grad = True,
        grad_fn = Some (MulBackward0_scalar 6 3),
        retains_grad = False, grad = None, freed = False\<rparr>,
     \<lparr>data_t = [27], requires_grad = True, grad_fn = Some (MeanBackward0 7),
        retains_grad = True, grad = Some [1], freed = False\<rparr>]"
  unfolding after_In_18_def after_In_16_eq by (simp add: pass_ops)

lemma after_In_19_eq:
  "after_In_19 =
    [\<lparr>data_t = [1, 1, 1, 1], requires_grad = True, grad_fn = None,
        retains_grad = False, grad = Some [9 / 2, 9 / 2, 9 / 2, 9 / 2], freed = False\<rparr>,
     \<lparr>data_t = [3, 3, 3, 3], requires_grad = True, grad_fn = Some (AddBackward0 0 2),
        retains_grad = False, grad = None, freed = True\<rparr>,
     \<lparr>data_t = [9, 9, 9, 9], requires_grad = True, grad_fn = Some (MulBackward0 1 1),
        retains_grad = False, grad = None, freed = True\<rparr>,
     \<lparr>data_t = [27, 27, 27, 27], requires_grad = True,
        grad_fn = Some (MulBackward0_scalar 2 3),
        retains_grad = False, grad = None, freed = True\<rparr>,
     \<lparr>data_t = [27], requires_grad = True, grad_fn = Some (MeanBackward0 3),
        retains_grad = True, grad = None, freed = True\<rparr>,
     \<lparr>data_t = [3, 3, 3, 3], requires_grad = True, grad_fn = Some (AddBackward0 0 2),
        retains_grad = False, grad = None, freed = True\<rparr>,
     \<lparr>data_t = [9, 9, 9, 9], requires_grad = True, grad_fn = Some (MulBackward0 5 5),
        retains_grad = False, grad = None, freed = True\<rparr>,
     \<lparr>data_t = [27, 27, 27, 27], requires_grad = True,
        grad_fn = Some (MulBackward0_scalar 6 3),
        retains_grad = False, grad = None, freed = True\<rparr>,
     \<lparr>data_t = [27], requires_grad = True, grad_fn = Some (MeanBackward0 7),
        retains_grad = True, grad = Some [2], freed = True\<rparr>]"
  unfolding after_In_19_def after_In_18_eq by (simp add: pass_ops)

lemma recorded_outputs:
  "grad_attr 0 after_In_11 = (Some [9 / 2, 9 / 2, 9 / 2, 9 / 2], False)
   \<and> grad_attr 4 after_In_11 = (None, True)
   \<and> backward 4 None False retained_In_15 = Inl RuntimeError
   \<and> grad_attr 0 after_In_16 = (Some [9, 9, 9, 9], False)
   \<and> grad_attr 0 after_In_18 = (Some [0, 0, 0, 0], False)
   \<and> grad_attr 0 after_In_19 = (Some [9 / 2, 9 / 2, 9 / 2, 9 / 2], False)
   \<and> grad_attr 8 after_In_19 = (Some [2], False)
   \<and> grad_attr 5 after_In_19 = (None, True)"
  unfolding after_In_19_eq after_In_18_eq after_In_16_eq retained_In_15_def after_In_11_eq
  by (simp add: grad_attr_def pass_ops)

lemma reachable_after_In_9: "reachable after_In_9"
  unfolding after_In_9_def
  by (intro reachable.mean reachable.mul_scalar reachable.mul reachable.add_scalar
      reachable.ones reachable.start) (simp_all add: graph_ops)

lemma reachable_after_In_11: "reachable after_In_11"
proof -
  have "backward 4 None False after_In_9 = Inr after_In_11"
    unfolding In_11_eq after_In_11_eq ..
  moreover have "4 < length after_In_9" by (simp add: after_In_9_eq)
  ultimately show ?thesis using reachable_after_In_9 reachable.backward by blast
qed

lemma retain_grad_In_15: "retain_grad 4 after_In_11 = Inr after_In_15"
  unfolding after_In_15_eq after_In_11_eq by (simp add: retain_grad_def is_leaf_def)

lemma reachable_after_In_15: "reachable after_In_15"
proof -
  have "4 < length after_In_11" by (simp add: after_In_11_eq)
  then show ?thesis
    using reachable_after_In_11 retain_grad_In_15 reachable.retain_grad by blast
qed

lemma reachable_rebuilt_In_16: "reachable rebuilt_In_16"
  unfolding rebuilt_In_16_def
  by (intro reachable.mean reachable.mul_scalar reachable.mul reachable.add_scalar
      reachable_after_In_15) (simp_all add: graph_ops after_In_15_eq)

lemma length_rebuilt_In_16: "length rebuilt_In_16 = 9"
  unfolding rebuilt_In_16_def after_In_15_eq by (simp add: graph_ops)

lemma retain_grad_In_16:
  "retain_grad 8 rebuilt_In_16 = Inr (run (retain_grad 8) rebuilt_In_16)"
  unfolding rebuilt_In_16_def after_In_15_eq by (simp add: graph_ops pass_ops)

lemma reachable_retained_In_16: "reachable (run (retain_grad 8) rebuilt_In_16)"
  using reachable_rebuilt_In_16 retain_grad_In_16 length_rebuilt_In_16
    reachable.retain_grad [of rebuilt_In_16 8]
  by simp

text \<open>
  Claim C3, as stated, fails: a first \<open>.backward()\<close> that does not pass
  \<open>retain_graph=True\<close> can still keep the graph. In \<open>out.backward(create_graph=True)\<close> the
  argument \<open>retain_graph\<close> is left out and defaults to the value of \<open>create_graph\<close>; a second
  \<open>out.backward()\<close> on the tensors of cell \<open>In [9]\<close> then returns without error, and
  \<open>x.grad\<close>, 4.5 after the first call, is 9 after the second.
\<close>

theorem backward_create_graph_counterexample:
  "backward 4 None True after_In_9 = Inr
    [\<lparr>data_t = [1, 1, 1, 1], requires_grad = True, grad_fn = None,
        retains_grad = False, grad = Some [9 / 2, 9 / 2, 9 / 2, 9 / 2], freed = False\<rparr>,
     \<lparr>data_t = [3, 3, 3, 3], requires_grad = True, grad_fn = Some (AddBackward0 0 2),
        retains_grad = False, grad = None, freed = False\<rparr>,
     \<lparr>data_t = [9, 9, 9, 9], requires_grad = True, grad_fn = Some (MulBackward0 1 1),
        retains_grad = False, grad = None, freed = False\<rparr>,
     \<lparr>data_t = [27, 27, 27, 27], requires_grad = True,
        grad_fn = Some (MulBackward0_scalar 2 3),
        retains_grad = False, grad = None, freed = False\<rparr>,
     \<lparr>data_t = [27], requires_grad = True, grad_fn = Some (MeanBackward0 3),
        retains_grad = False, grad = None, freed = False\<rparr>]
   \<and> backward 4 None False
    [\<lparr>data_t = [1, 1, 1, 1], requires_grad = True, grad_fn = None,
        retains_grad = False, grad = Some [9 / 2, 9 / 2, 9 / 2, 9 / 2], freed = False\<rparr>,
     \<lparr>data_t = [3, 3, 3, 3], requires_grad = True, grad_fn = Some (AddBackward0 0 2),
        retains_grad = False, grad = None, freed = False\<rparr>,
     \<lparr>data_t = [9, 9, 9, 9], requires_grad = True, grad_fn = Some (MulBackward0 1 1),
        retains_grad = False, grad = None, freed = False\<rparr>,
     \<lparr>data_t = [27, 27, 27, 27], requires_grad = True,
        grad_fn = Some (MulBackward0_scalar 2 3),
        retains_grad = False, grad = None, freed = False\<rparr>,
     \<lparr>data_t = [27], requires_grad = True, grad_fn = Some (MeanBackward0 3),
        retains_grad = False, grad = None, freed = False\<rparr>] = Inr
    [\<lparr>data_t = [1, 1, 1, 1], requires_grad = True, grad_fn = None,
        retains_grad = False, grad = Some [9, 9, 9, 9], freed = False\<rparr>,
     \<lparr>data_t = [3, 3, 3, 3], requires_grad = True, grad_fn = Some (AddBackward0 0 2),
        retains_grad = False, grad = None, freed = True\<rparr>,
     \<lparr>data_t = [9, 9, 9, 9], requires_grad = True, grad_fn = Some (MulBackward0 1 1),
        retains_grad = False, grad = None, freed = True\<rparr>,
     \<lparr>data_t = [27, 27, 27, 27], requires_grad = True,
        grad_fn = Some (MulBackward0_scalar 2 3),
        retains_grad = False, grad = None, freed = True\<rparr>,
     \<lparr>data_t = [27], requires_grad = True, grad_fn = Some (MeanBackward0 3),
        retains_grad = False, grad = None, freed = True\<rparr>]"
  unfolding after_In_9_eq by (simp add: pass_ops)

text \<open>
  Claim C3, amended. Calling \<open>.backward()\<close> a second time on the same tensor, one that an
  operation created, raises a \<open>RuntimeError\<close> (the graph buffers have been freed) when the
  first \<open>.backward()\<close> did not keep the graph: it passed \<open>retain_graph=False\<close>, or left
  \<open>retain_graph\<close> out with \<open>create_graph\<close> false. When the first call kept the graph
  (\<open>retain_graph=True\<close>, as in the call on the graph that cell \<open>In [16]\<close> builds again, or
  \<open>create_graph=True\<close> with \<open>retain_graph\<close> left out), a further \<open>.backward()\<close> on the same
  tensor succeeds without error. The tensors are those of a store that the notebook's
  operations can produce.
\<close>

theorem backward_second_call:
  assumes "reachable s" and "t < length s" and "\<not> is_leaf (s ! t)"
    and "backward t rg cg s = Inr s1"
  shows "(\<not> keeps_graph rg cg \<longrightarrow> backward t rg2 cg2 s1 = Inl RuntimeError)
       \<and> (keeps_graph rg cg \<longrightarrow> (\<exists>s2. backward t rg2 cg2 s1 = Inr s2))"
proof (intro conjI impI)
  assume "\<not> keeps_graph rg cg"
  with assms(2,3) show "backward t rg2 cg2 s1 = Inl RuntimeError"
    using assms(4) by (rule backward_twice_raises)
next
  assume "keeps_graph rg cg"
  with reachable_inputs_ok [OF assms(1)] assms(2)
  show "\<exists>s2. backward t rg2 cg2 s1 = Inr s2"
    using assms(4) by (rule backward_again_succeeds)
qed

theorem backward_second_call_witness:
  "reachable after_In_9 \<and> 4 < length after_In_9 \<and> \<not> is_leaf (after_In_9 ! 4)
   \<and> backward 4 None False after_In_9 = Inr after_In_11
   \<and> \<not> keeps_graph None False
   \<and> backward 4 None False after_In_11 = Inl RuntimeError
   \<and> reachable (run (retain_grad 8) rebuilt_In_16)
   \<and> 8 < length (run (retain_grad 8) rebuilt_In_16)
   \<and> \<not> is_leaf (run (retain_grad 8) rebuilt_In_16 ! 8)
   \<and> backward 8 (Some True) True (run (retain_grad 8) rebuilt_In_16) = Inr after_In_16
   \<and> keeps_graph (Some True) True
   \<and> (\<exists>s2. backward 8 None False after_In_16 = Inr s2)"
proof -
  let ?r = "run (retain_grad 8) rebuilt_In_16"
  have a1: "4 < length after_In_9" and a2: "\<not> is_leaf (after_In_9 ! 4)"
    by (simp_all add: after_In_9_eq is_leaf_def)
  have a3: "backward 4 None False after_In_9 = Inr after_In_11"
    unfolding In_11_eq after_In_11_eq ..
  have a4: "\<not> keeps_graph None False" by (simp add: keeps_graph_def)
  have b1: "8 < length ?r" and b2: "\<not> is_leaf (?r ! 8)"
    by (simp_all add: rebuilt_In_16_eq is_leaf_def)
  have b3: "backward 8 (Some True) True ?r = Inr after_In_16"
    unfolding In_16_eq after_In_16_eq ..
  have b4: "keeps_graph (Some True) True" by (simp add: keeps_graph_def)
  have c1: "backward 4 None False after_In_11 = Inl RuntimeError"
    using backward_second_call [OF reachable_after_In_9 a1 a2 a3, of None False] a4 by blast
  have c2: "\<exists>s2. backward 8 None False after_In_16 = Inr s2"
    using backward_second_call [OF reachable_retained_In_16 b1 b2 b3, of None False] b4
    by blast
  show ?thesis
    using reachable_after_In_9 a1 a2 a3 a4 c1 reachable_retained_In_16 b1 b2 b3 b4 c2
    by blast
qed

text \<open>
  Claim C4. Accessing the \<open>.grad\<close> attribute of a non-leaf tensor on which
  \<open>retain_grad()\<close> has not been called yields an unpopulated gradient (\<open>None\<close>) together
  with a warning, because \<open>backward()\<close> populates gradients only on leaf tensors with
  \<open>requires_grad=True\<close> (a backward pass changes the gradient of a non-leaf tensor only
  when the tensor retains it); after calling \<open>retain_grad()\<close> on the non-leaf tensor and
  running backward, its \<open>.grad\<close> is populated and read without a warning.
\<close>

theorem grad_of_non_leaf:
  assumes "reachable s" and "t < length s" and "\<not> is_leaf (s ! t)"
  shows "(\<not> retains_grad (s ! t) \<longrightarrow> grad_attr t s = (None, True))
       \<and> (retain_grad t s = Inr s1 \<and> backward t rg cg s1 = Inr s2 \<longrightarrow>
            (\<exists>g. grad_attr t s2 = (Some g, False)))
       \<and> (backward u rg cg s = Inr s3 \<and> grad (s3 ! t) \<noteq> grad (s ! t) \<longrightarrow>
            retains_grad (s ! t))"
proof (intro conjI impI)
  assume "\<not> retains_grad (s ! t)"
  with assms show "grad_attr t s = (None, True)" by (rule grad_attr_unretained)
next
  assume "retain_grad t s = Inr s1 \<and> backward t rg cg s1 = Inr s2"
  then show "\<exists>g. grad_attr t s2 = (Some g, False)"
    using retain_then_backward [OF assms(2,3)] by blast
next
  assume a: "backward u rg cg s = Inr s3 \<and> grad (s3 ! t) \<noteq> grad (s ! t)"
  then have "touched (s ! t) (s3 ! t)" using assms(2) backward_touched by blast
  then show "retains_grad (s ! t)" using a assms(3) by (auto simp: touched_def)
qed

theorem grad_of_non_leaf_witness:
  "reachable after_In_11 \<and> 4 < length after_In_11 \<and> \<not> is_leaf (after_In_11 ! 4)
   \<and> \<not> retains_grad (after_In_11 ! 4)
   \<and> grad_attr 4 after_In_11 = (None, True)
   \<and> reachable rebuilt_In_16 \<and> 8 < length rebuilt_In_16 \<and> \<not> is_leaf (rebuilt_In_16 ! 8)
   \<and> retain_grad 8 rebuilt_In_16 = Inr (run (retain_grad 8) rebuilt_In_16)
   \<and> backward 8 (Some True) True (run (retain_grad 8) rebuilt_In_16) = Inr after_In_16
   \<and> (\<exists>g. grad_attr 8 after_In_16 = (Some g, False))
   \<and> reachable (run (retain_grad 8) rebuilt_In_16)
   \<and> grad (after_In_16 ! 8) \<noteq> grad (run (retain_grad 8) rebuilt_In_16 ! 8)
   \<and> retains_grad (run (retain_grad 8) rebuilt_In_16 ! 8)"
proof -
  let ?r = "run (retain_grad 8) rebuilt_In_16"
  have a1: "4 < length after_In_11" and a2: "\<not> is_leaf (after_In_11 ! 4)"
    and a3: "\<not> retains_grad (after_In_11 ! 4)"
    by (simp_all add: after_In_11_eq is_leaf_def)
  have b1: "8 < length rebuilt_In_16" by (simp add: length_rebuilt_In_16)
  have b2: "\<not> is_leaf (rebuilt_In_16 ! 8)"
    unfolding rebuilt_In_16_def after_In_15_eq by (simp add: graph_ops is_leaf_def)
  have b3: "backward 8 (Some True) True ?r = Inr after_In_16"
    unfolding In_16_eq after_In_16_eq ..
  have c1: "8 < length ?r" and c2: "\<not> is_leaf (?r ! 8)"
    by (simp_all add: rebuilt_In_16_eq is_leaf_def)
  have c3: "grad (after_In_16 ! 8) \<noteq> grad (?r ! 8)"
    by (simp add: rebuilt_In_16_eq after_In_16_eq)
  have d1: "grad_attr 4 after_In_11 = (None, True)"
    using grad_of_non_leaf [OF reachable_after_In_11 a1 a2] a3 by blast
  have d2: "\<exists>g. grad_attr 8 after_In_16 = (Some g, False)"
    using grad_of_non_leaf [OF reachable_rebuilt_In_16 b1 b2, of ?r "Some True" True after_In_16]
      retain_grad_In_16 b3 by blast
  have d3: "retains_grad (?r ! 8)"
    using grad_of_non_leaf [OF reachable_retained_In_16 c1 c2, of _ _ _ _ 8 after_In_16] b3 c3
    by blast
  show ?thesis
    using reachable_after_In_11 a1 a2 a3 d1 reachable_rebuilt_In_16 b1 b2 retain_grad_In_16 b3
      d2 reachable_retained_In_16 c3 d3
    by blast
qed

section \<open>The warm-up loops compute the gradient by hand\<close>

lemma dot_sum: "length u = length v \<Longrightarrow> dot u v = (\<Sum>k<length u. u ! k * v ! k)"
  unfolding dot_def by (simp add: sum_list_sum_nth atLeast0LessThan)

lemma wf_row: "wf_tensor a \<Longrightarrow> i < length (rows a) \<Longrightarrow> length (rows a ! i) = ncols a"
  by (simp add: wf_tensor_def list_all_length)

lemma square_sum_entries:
  assumes "wf_tensor a"
  shows "square_sum a = (\<Sum>i<length (rows a). \<Sum>j<ncols a. (entry a i j)\<^sup>2)"
proof -
  have "square_sum a = (\<Sum>i<length (rows a). sum_list (map (\<lambda>v. v\<^sup>2) (rows a ! i)))"
    unfolding square_sum_def by (simp add: sum_list_sum_nth atLeast0LessThan)
  also have "\<dots> = (\<Sum>i<length (rows a). \<Sum>j<ncols a. (entry a i j)\<^sup>2)"
  proof (intro sum.cong refl)
    fix i assume "i \<in> {..<length (rows a)}"
    then have "length (rows a ! i) = ncols a" using assms by (simp add: wf_row)
    then show "sum_list (map (\<lambda>v. v\<^sup>2) (rows a ! i)) = (\<Sum>j<ncols a. (entry a i j)\<^sup>2)"
      by (simp add: sum_list_sum_nth atLeast0LessThan entry_def)
  qed
  finally show ?thesis .
qed

lemma matmul_shape: "shape (matmul a b) = (length (rows a), ncols b)"
  by (simp add: matmul_def shape_def)

lemma matmul_wf: "wf_tensor (matmul a b)"
  by (simp add: matmul_def wf_tensor_def list_all_iff)

lemma matmul_entry:
  assumes "wf_tensor a" and "ncols a = length (rows b)"
    and "i < length (rows a)" and "j < ncols b"
  shows "entry (matmul a b) i j = (\<Sum>k<ncols a. entry a i k * entry b k j)"
proof -
  have len: "length (rows a ! i) = length (column j b)"
    using assms(1,2,3) by (simp add: wf_row column_def)
  have "entry (matmul a b) i j = dot (rows a ! i) (column j b)"
    using assms(3,4) by (simp add: entry_def matmul_def)
  also have "\<dots> = (\<Sum>k<length (rows a ! i). rows a ! i ! k * column j b ! k)"
    using len by (rule dot_sum)
  also have "\<dots> = (\<Sum>k<ncols a. entry a i k * entry b k j)"
    using assms(1,2,3) by (intro sum.cong) (simp_all add: wf_row column_def entry_def)
  finally show ?thesis .
qed

lemma transposed_shape: "shape (transposed a) = (ncols a, length (rows a))"
  by (simp add: transposed_def shape_def)

lemma transposed_wf: "wf_tensor (transposed a)"
  by (simp add: transposed_def wf_tensor_def list_all_iff column_def)

lemma transposed_entry:
  "i < length (rows a) \<Longrightarrow> j < ncols a \<Longrightarrow> entry (transposed a) j i = entry a i j"
  by (simp add: transposed_def entry_def column_def)

lemma relu_entry:
  "wf_tensor a \<Longrightarrow> i < length (rows a) \<Longrightarrow> j < ncols a \<Longrightarrow>
     entry (relu a) i j = max 0 (entry a i j)"
  by (simp add: relu_def entry_def wf_row)

lemma sub_shape:
  "length (rows a) = length (rows b) \<Longrightarrow> shape (sub a b) = shape a"
  by (simp add: sub_def shape_def)

lemma sub_wf:
  assumes "wf_tensor a" and "wf_tensor b" and "shape a = shape b"
  shows "wf_tensor (sub a b)"
  using assms
  by (auto simp: sub_def wf_tensor_def shape_def list_all_length)

lemma sub_entry:
  assumes "wf_tensor a" and "wf_tensor b" and "shape a = shape b"
    and "i < length (rows a)" and "j < ncols a"
  shows "entry (sub a b) i j = entry a i j - entry b i j"
  using assms by (simp add: sub_def entry_def shape_def wf_row)

lemma scale_shape: "shape (scale c a) = shape a"
  by (simp add: scale_def shape_def)

lemma scale_wf: "wf_tensor a \<Longrightarrow> wf_tensor (scale c a)"
  by (simp add: scale_def wf_tensor_def list_all_iff)

lemma scale_entry:
  "wf_tensor a \<Longrightarrow> i < length (rows a) \<Longrightarrow> j < ncols a \<Longrightarrow>
     entry (scale c a) i j = c * entry a i j"
  by (simp add: scale_def entry_def wf_row)

lemma zero_where_negative_shape:
  "length (rows h) = length (rows g) \<Longrightarrow> shape (zero_where_negative h g) = shape g"
  by (simp add: zero_where_negative_def shape_def)

lemma zero_where_negative_wf:
  assumes "wf_tensor h" and "wf_tensor g" and "shape h = shape g"
  shows "wf_tensor (zero_where_negative h g)"
  using assms
  by (auto simp: zero_where_negative_def wf_tensor_def shape_def list_all_length)

lemma zero_where_negative_entry:
  assumes "wf_tensor h" and "wf_tensor g" and "shape h = shape g"
    and "i < length (rows g)" and "j < ncols g"
  shows "entry (zero_where_negative h g) i j = (if entry h i j < 0 then 0 else entry g i j)"
  using assms by (simp add: zero_where_negative_def entry_def shape_def wf_row)

lemma set_entry_shape: "shape (set_entry a i j v) = shape a"
  by (simp add: set_entry_def shape_def)

lemma set_entry_wf:
  assumes "wf_tensor a"
  shows "wf_tensor (set_entry a i j v)"
  unfolding wf_tensor_def list_all_length
proof (intro allI impI)
  fix n assume "n < length (rows (set_entry a i j v))"
  then have n: "n < length (rows a)" by (simp add: set_entry_def)
  then have "length (rows a ! n) = ncols a" using assms by (simp add: wf_row)
  then show "length (rows (set_entry a i j v) ! n) = ncols (set_entry a i j v)"
    using n by (cases "n = i") (simp_all add: set_entry_def)
qed

lemma set_entry_entry:
  assumes "wf_tensor a" and "i < length (rows a)" and "j < ncols a"
    and "i' < length (rows a)" and "j' < ncols a"
  shows "entry (set_entry a i j v) i' j' = (if i' = i \<and> j' = j then v else entry a i' j')"
  using assms by (auto simp: set_entry_def entry_def nth_list_update wf_row)

lemma shape_iff: "shape a = (r, c) \<longleftrightarrow> length (rows a) = r \<and> ncols a = c"
  by (auto simp: shape_def)

lemma relu_rows: "length (rows (relu a)) = length (rows a)" "ncols (relu a) = ncols a"
  by (simp_all add: relu_def)

lemma matmul_rows:
  "length (rows (matmul a b)) = length (rows a)" "ncols (matmul a b) = ncols b"
  by (simp_all add: matmul_def)

lemma transposed_rows:
  "length (rows (transposed a)) = ncols a" "ncols (transposed a) = length (rows a)"
  by (simp_all add: transposed_def)

lemma scale_rows:
  "length (rows (scale c a)) = length (rows a)" "ncols (scale c a) = ncols a"
  by (simp_all add: scale_def)

lemma sub_rows:
  "length (rows (sub a b)) = min (length (rows a)) (length (rows b))" "ncols (sub a b) = ncols a"
  by (simp_all add: sub_def)

lemma zero_where_negative_rows:
  "length (rows (zero_where_negative h g)) = min (length (rows h)) (length (rows g))"
  "ncols (zero_where_negative h g) = ncols g"
  by (simp_all add: zero_where_negative_def)

lemma set_entry_rows:
  "length (rows (set_entry a i j v)) = length (rows a)" "ncols (set_entry a i j v) = ncols a"
  by (simp_all add: set_entry_def)

lemmas array_rows = relu_rows matmul_rows transposed_rows scale_rows sub_rows
  zero_where_negative_rows set_entry_rows

lemma loop_shapes_facts:
  assumes "loop_shapes N D_in H D_out x y w1 w2"
  shows "wf_tensor x" "length (rows x) = N" "ncols x = D_in"
    "wf_tensor y" "length (rows y) = N" "ncols y = D_out"
    "wf_tensor w1" "length (rows w1) = D_in" "ncols w1 = H"
    "wf_tensor w2" "length (rows w2) = H" "ncols w2 = D_out"
  using assms by (simp_all add: loop_shapes_def shape_iff)

lemma h_entry:
  assumes "loop_shapes N D_in H D_out x y w1 w2" and "n < N" and "h < H"
  shows "entry (matmul x w1) n h = (\<Sum>d<D_in. entry x n d * entry w1 d h)"
  using matmul_entry [of x w1 n h] assms(2,3) loop_shapes_facts [OF assms(1)] by simp

lemma h_relu_entry:
  assumes "loop_shapes N D_in H D_out x y w1 w2" and "n < N" and "h < H"
  shows "entry (relu (matmul x w1)) n h = max 0 (\<Sum>d<D_in. entry x n d * entry w1 d h)"
  using relu_entry [of "matmul x w1" n h] assms(2,3) loop_shapes_facts [OF assms(1)]
  by (simp add: array_rows matmul_wf h_entry [OF assms])

lemma y_pred_entry:
  assumes "loop_shapes N D_in H D_out x y w1 w2" and "n < N" and "k < D_out"
  shows "entry (matmul (relu (matmul x w1)) w2) n k
           = (\<Sum>h<H. entry (relu (matmul x w1)) n h * entry w2 h k)"
  using matmul_entry [of "relu (matmul x w1)" w2 n k] assms(2,3)
    loop_shapes_facts [OF assms(1)]
  by (simp add: array_rows relu_wf matmul_wf)

lemma residual_entry:
  assumes "loop_shapes N D_in H D_out x y w1 w2" and "n < N" and "k < D_out"
  shows "entry (sub (matmul (relu (matmul x w1)) w2) y) n k
           = (\<Sum>h<H. entry (relu (matmul x w1)) n h * entry w2 h k) - entry y n k"
  using sub_entry [of "matmul (relu (matmul x w1)) w2" y n k] assms(2,3)
    loop_shapes_facts [OF assms(1)]
  by (simp add: array_rows matmul_wf shape_def y_pred_entry [OF assms])

lemma residual_wf:
  assumes "loop_shapes N D_in H D_out x y w1 w2"
  shows "wf_tensor (sub (matmul (relu (matmul x w1)) w2) y)"
  using loop_shapes_facts [OF assms] by (intro sub_wf matmul_wf) (simp_all add: array_rows shape_def)

lemma loss_at_sum:
  assumes "loop_shapes N D_in H D_out x y w1 w2"
  shows "loss_at x y w1 w2
     = (\<Sum>n<N. \<Sum>k<D_out.
          ((\<Sum>h<H. entry (relu (matmul x w1)) n h * entry w2 h k) - entry y n k)\<^sup>2)"
  unfolding loss_at_def Let_def square_sum_entries [OF residual_wf [OF assms]]
  using loop_shapes_facts [OF assms] by (simp add: array_rows residual_entry [OF assms])

lemma grad_y_pred_entry:
  assumes "loop_shapes N D_in H D_out x y w1 w2" and "n < N" and "k < D_out"
  shows "entry (scale 2 (sub (matmul (relu (matmul x w1)) w2) y)) n k
           = 2 * ((\<Sum>h<H. entry (relu (matmul x w1)) n h * entry w2 h k) - entry y n k)"
  using scale_entry [OF residual_wf [OF assms(1)], of n k 2] assms(2,3)
    loop_shapes_facts [OF assms(1)]
  by (simp add: array_rows residual_entry [OF assms])

lemma grad_w2_entry:
  assumes "loop_shapes N D_in H D_out x y w1 w2" and "i < H" and "j < D_out"
  shows "entry (snd (backprop x y w1 w2)) i j
           = (\<Sum>n<N. entry (relu (matmul x w1)) n i
                * (2 * ((\<Sum>h<H. entry (relu (matmul x w1)) n h * entry w2 h j) - entry y n j)))"
proof -
  note f = loop_shapes_facts [OF assms(1)]
  let ?hr = "relu (matmul x w1)"
  let ?g = "scale 2 (sub (matmul ?hr w2) y)"
  have "entry (snd (backprop x y w1 w2)) i j = entry (matmul (transposed ?hr) ?g) i j"
    by (simp add: backprop_def Let_def)
  also have "\<dots> = (\<Sum>n<N. entry (transposed ?hr) i n * entry ?g n j)"
    using matmul_entry [of "transposed ?hr" ?g i j] assms(2,3) f
    by (simp add: array_rows transposed_wf)
  also have "\<dots> = (\<Sum>n<N. entry ?hr n i
                * (2 * ((\<Sum>h<H. entry ?hr n h * entry w2 h j) - entry y n j)))"
  proof (intro sum.cong refl)
    fix n assume "n \<in> {..<N}"
    then have n: "n < N" by simp
    have "entry (transposed ?hr) i n = entry ?hr n i"
      using transposed_entry [of n ?hr i] n assms(2) f by (simp add: array_rows)
    then show "entry (transposed ?hr) i n * entry ?g n j = entry ?hr n i
                * (2 * ((\<Sum>h<H. entry ?hr n h * entry w2 h j) - entry y n j))"
      by (simp add: array_rows grad_y_pred_entry [OF assms(1) n assms(3)])
  qed
  finally show ?thesis .
qed

lemma grad_h_relu_entry:
  assumes "loop_shapes N D_in H D_out x y w1 w2" and "n < N" and "j < H"
  shows "entry (matmul (scale 2 (sub (matmul (relu (matmul x w1)) w2) y)) (transposed w2)) n j
           = (\<Sum>k<D_out. 2 * ((\<Sum>h<H. entry (relu (matmul x w1)) n h * entry w2 h k)
                                 - entry y n k) * entry w2 j k)"
proof -
  note f = loop_shapes_facts [OF assms(1)]
  let ?g = "scale 2 (sub (matmul (relu (matmul x w1)) w2) y)"
  have wf: "wf_tensor ?g" by (intro scale_wf residual_wf [OF assms(1)])
  have "entry (matmul ?g (transposed w2)) n j
          = (\<Sum>k<D_out. entry ?g n k * entry (transposed w2) k j)"
    using matmul_entry [OF wf, of "transposed w2" n j] assms(2,3) f by (simp add: array_rows)
  also have "\<dots> = (\<Sum>k<D_out. 2 * ((\<Sum>h<H. entry (relu (matmul x w1)) n h * entry w2 h k)
                                 - entry y n k) * entry w2 j k)"
  proof (intro sum.cong refl)
    fix k assume "k \<in> {..<D_out}"
    then have k: "k < D_out" by simp
    have "entry (transposed w2) k j = entry w2 j k"
      using transposed_entry [of j w2 k] k assms(3) f by (simp add: array_rows)
    then show "entry ?g n k * entry (transposed w2) k j
        = 2 * ((\<Sum>h<H. entry (relu (matmul x w1)) n h * entry w2 h k) - entry y n k)
            * entry w2 j k"
      by (simp add: array_rows grad_y_pred_entry [OF assms(1,2) k])
  qed
  finally show ?thesis .
qed

lemma grad_w1_entry:
  assumes "loop_shapes N D_in H D_out x y w1 w2" and "i < D_in" and "j < H"
  shows "entry (fst (backprop x y w1 w2)) i j
           = (\<Sum>n<N. entry x n i
                * (if entry (matmul x w1) n j < 0 then 0
                   else \<Sum>k<D_out. 2 * ((\<Sum>h<H. entry (relu (matmul x w1)) n h * entry w2 h k)
                                           - entry y n k) * entry w2 j k))"
proof -
  note f = loop_shapes_facts [OF assms(1)]
  let ?h = "matmul x w1"
  let ?ghr = "matmul (scale 2 (sub (matmul (relu ?h) w2) y)) (transposed w2)"
  let ?gh = "zero_where_negative ?h ?ghr"
  have wf: "wf_tensor ?gh"
    using f by (intro zero_where_negative_wf matmul_wf) (simp add: array_rows shape_def)
  have "entry (fst (backprop x y w1 w2)) i j = entry (matmul (transposed x) ?gh) i j"
    by (simp add: backprop_def Let_def)
  also have "\<dots> = (\<Sum>n<N. entry (transposed x) i n * entry ?gh n j)"
    using matmul_entry [of "transposed x" ?gh i j] assms(2,3) f
    by (simp add: array_rows transposed_wf)
  also have "\<dots> = (\<Sum>n<N. entry x n i
                * (if entry ?h n j < 0 then 0
                   else \<Sum>k<D_out. 2 * ((\<Sum>h<H. entry (relu ?h) n h * entry w2 h k)
                                           - entry y n k) * entry w2 j k))"
  proof (intro sum.cong refl)
    fix n assume "n \<in> {..<N}"
    then have n: "n < N" by simp
    have 1: "entry (transposed x) i n = entry x n i"
      using transposed_entry [of n x i] n assms(2) f by (simp add: array_rows)
    have 2: "entry ?gh n j = (if entry ?h n j < 0 then 0 else entry ?ghr n j)"
      using zero_where_negative_entry [of ?h ?ghr n j] n assms(3) f
      by (simp add: array_rows matmul_wf shape_def)
    show "entry (transposed x) i n * entry ?gh n j = entry x n i
                * (if entry ?h n j < 0 then 0
                   else \<Sum>k<D_out. 2 * ((\<Sum>h<H. entry (relu ?h) n h * entry w2 h k)
                                           - entry y n k) * entry w2 j k)"
      unfolding 1 2 grad_h_relu_entry [OF assms(1) n assms(3)] ..
  qed
  finally show ?thesis .
qed

lemma deriv_loss_w2:
  fixes hr w y :: "nat \<Rightarrow> nat \<Rightarrow> real"
  assumes "i < H" and "j < D"
  shows "((\<lambda>v. \<Sum>n<N. \<Sum>k<D. ((\<Sum>h<H. hr n h * (if h = i \<and> k = j then v else w h k)) - y n k)\<^sup>2)
           has_real_derivative
         (\<Sum>n<N. hr n i * (2 * ((\<Sum>h<H. hr n h * w h j) - y n j)))) (at (w i j))"
proof -
  have inner: "((\<lambda>v. (\<Sum>h<H. hr n h * (if h = i \<and> k = j then v else w h k)) - y n k)
           has_real_derivative (if k = j then hr n i else 0)) (at v0)" for n k v0
  proof -
    have "((\<lambda>v. (\<Sum>h<H. hr n h * (if h = i \<and> k = j then v else w h k)) - y n k)
           has_real_derivative (\<Sum>h<H. hr n h * (if h = i \<and> k = j then 1 else 0)) - 0) (at v0)"
      by (intro derivative_intros DERIV_sum) (auto intro!: derivative_eq_intros)
    moreover have "(\<Sum>h<H. hr n h * (if h = i \<and> k = j then 1 else 0)) = (if k = j then hr n i else 0)"
      using assms(1) by (simp add: sum.delta if_distrib [of "\<lambda>x. hr n _ * x"] cong: if_cong)
    ultimately show ?thesis by simp
  qed
  have sq: "((\<lambda>v. ((\<Sum>h<H. hr n h * (if h = i \<and> k = j then v else w h k)) - y n k)\<^sup>2)
           has_real_derivative
             (if k = j then hr n i * (2 * ((\<Sum>h<H. hr n h * w h j) - y n j)) else 0)) (at (w i j))" for n k
  proof -
    have val: "(\<Sum>h<H. hr n h * (if h = i \<and> k = j then w i j else w h k)) = (\<Sum>h<H. hr n h * w h k)"
      by (intro sum.cong) auto
    show ?thesis
      by (rule DERIV_cong [OF DERIV_power [OF inner]]) (auto simp: val)
  qed
  have "((\<lambda>v. \<Sum>n<N. \<Sum>k<D. ((\<Sum>h<H. hr n h * (if h = i \<and> k = j then v else w h k)) - y n k)\<^sup>2)
           has_real_derivative
         (\<Sum>n<N. \<Sum>k<D. (if k = j then hr n i * (2 * ((\<Sum>h<H. hr n h * w h j) - y n j)) else 0))) (at (w i j))"
    by (intro DERIV_sum sq)
  moreover have "(\<Sum>k<D. (if k = j then c else 0)) = c" for c :: real
    using assms(2) by (simp add: sum.delta')
  ultimately show ?thesis by simp
qed

lemma DERIV_max0:
  fixes f :: "real \<Rightarrow> real"
  assumes "(f has_real_derivative d) (at a)" and "f a \<noteq> 0"
  shows "((\<lambda>v. max 0 (f v)) has_real_derivative (if f a < 0 then 0 else d)) (at a)"
proof -
  have cont: "(f \<longlongrightarrow> f a) (nhds a)"
    using DERIV_isCont [OF assms(1)] by (simp add: isCont_def tendsto_at_iff_tendsto_nhds)
  show ?thesis
  proof (cases "f a < 0")
    case True
    have "eventually (\<lambda>v. f v < 0) (nhds a)"
      using cont True by (rule order_tendstoD)
    then have "eventually (\<lambda>v. max 0 (f v) = 0) (nhds a)"
      by (rule eventually_mono) simp
    then have "((\<lambda>v. max 0 (f v)) has_real_derivative 0) (at a)
                 \<longleftrightarrow> ((\<lambda>v. 0::real) has_real_derivative 0) (at a)"
      by (intro DERIV_cong_ev) simp_all
    then show ?thesis using True by simp
  next
    case False
    then have pos: "0 < f a" using assms(2) by simp
    have "eventually (\<lambda>v. 0 < f v) (nhds a)"
      using cont pos by (rule order_tendstoD)
    then have "eventually (\<lambda>v. max 0 (f v) = f v) (nhds a)"
      by (rule eventually_mono) simp
    then have "((\<lambda>v. max 0 (f v)) has_real_derivative d) (at a)
                 \<longleftrightarrow> (f has_real_derivative d) (at a)"
      by (intro DERIV_cong_ev) simp_all
    then show ?thesis using False assms(1) by simp
  qed
qed

lemma deriv_loss_w1:
  fixes x w1 w2 y :: "nat \<Rightarrow> nat \<Rightarrow> real"
  assumes "i < Din" and "j < H"
    and nz: "\<forall>n<N. (\<Sum>d<Din. x n d * w1 d j) \<noteq> 0"
  shows "((\<lambda>v. \<Sum>n<N. \<Sum>k<D.
              ((\<Sum>h<H. max 0 (\<Sum>d<Din. x n d * (if d = i \<and> h = j then v else w1 d h)) * w2 h k)
                 - y n k)\<^sup>2)
           has_real_derivative
         (\<Sum>n<N. x n i *
             (if (\<Sum>d<Din. x n d * w1 d j) < 0 then 0
              else \<Sum>k<D. 2 * ((\<Sum>h<H. max 0 (\<Sum>d<Din. x n d * w1 d h) * w2 h k) - y n k) * w2 j k)))
         (at (w1 i j))"
proof -
  define pre where "pre n h v = (\<Sum>d<Din. x n d * (if d = i \<and> h = j then v else w1 d h))" for n h v
  define hp where "hp n h = (\<Sum>d<Din. x n d * w1 d h)" for n h
  define yp where "yp n k = (\<Sum>h<H. max 0 (hp n h) * w2 h k)" for n k
  have pre0: "pre n h (w1 i j) = hp n h" for n h
    unfolding pre_def hp_def by (intro sum.cong) auto
  have dpre: "((\<lambda>v. pre n h v) has_real_derivative (if h = j then x n i else 0)) (at v0)" for n h v0
  proof -
    have "((\<lambda>v. pre n h v) has_real_derivative (\<Sum>d<Din. x n d * (if d = i \<and> h = j then 1 else 0))) (at v0)"
      unfolding pre_def by (intro DERIV_sum) (auto intro!: derivative_eq_intros)
    moreover have "(\<Sum>d<Din. x n d * (if d = i \<and> h = j then 1 else 0)) = (if h = j then x n i else 0)"
      using assms(1) by (simp add: sum.delta if_distrib [of "\<lambda>z. x n _ * z"] cong: if_cong)
    ultimately show ?thesis by simp
  qed
  have dact: "((\<lambda>v. max 0 (pre n h v)) has_real_derivative
                 (if h = j then (if hp n j < 0 then 0 else x n i) else 0)) (at (w1 i j))"
    if "n < N" for n h
  proof (cases "h = j")
    case True
    have "pre n j (w1 i j) \<noteq> 0" using nz that by (simp add: pre0 hp_def)
    moreover have "((\<lambda>v. pre n j v) has_real_derivative x n i) (at (w1 i j))"
      using dpre [of n j "w1 i j"] by simp
    ultimately have "((\<lambda>v. max 0 (pre n j v)) has_real_derivative
                        (if pre n j (w1 i j) < 0 then 0 else x n i)) (at (w1 i j))"
      by (intro DERIV_max0)
    then show ?thesis
      using True by (simp add: pre0)
  next
    case False
    then have "(\<lambda>v. max 0 (pre n h v)) = (\<lambda>v. max 0 (hp n h))"
      by (simp add: pre_def hp_def)
    then show ?thesis using False by simp
  qed
  have dyp: "((\<lambda>v. (\<Sum>h<H. max 0 (pre n h v) * w2 h k) - y n k) has_real_derivative
                 (if hp n j < 0 then 0 else x n i) * w2 j k) (at (w1 i j))"
    if "n < N" for n k
  proof -
    have "((\<lambda>v. (\<Sum>h<H. max 0 (pre n h v) * w2 h k) - y n k) has_real_derivative
              (\<Sum>h<H. (if h = j then (if hp n j < 0 then 0 else x n i) else 0) * w2 h k) - 0) (at (w1 i j))"
      by (intro derivative_intros DERIV_sum DERIV_cmult_right dact that)
    moreover have "(\<Sum>h<H. (if h = j then (if hp n j < 0 then 0 else x n i) else 0) * w2 h k)
                     = (if hp n j < 0 then 0 else x n i) * w2 j k"
      using assms(2) by (simp add: sum.delta if_distrib [of "\<lambda>z. z * w2 _ k"] cong: if_cong)
    ultimately show ?thesis by simp
  qed
  have dsq: "((\<lambda>v. ((\<Sum>h<H. max 0 (pre n h v) * w2 h k) - y n k)\<^sup>2) has_real_derivative
                 2 * (yp n k - y n k) * ((if hp n j < 0 then 0 else x n i) * w2 j k)) (at (w1 i j))"
    if "n < N" for n k
    by (rule DERIV_cong [OF DERIV_power [OF dyp [OF that]]]) (simp add: pre0 yp_def)
  have "((\<lambda>v. \<Sum>n<N. \<Sum>k<D. ((\<Sum>h<H. max 0 (pre n h v) * w2 h k) - y n k)\<^sup>2)
           has_real_derivative
         (\<Sum>n<N. \<Sum>k<D. 2 * (yp n k - y n k) * ((if hp n j < 0 then 0 else x n i) * w2 j k)))
         (at (w1 i j))"
    by (intro DERIV_sum dsq) simp
  moreover have "(\<Sum>k<D. 2 * (yp n k - y n k) * ((if hp n j < 0 then 0 else x n i) * w2 j k))
        = x n i * (if hp n j < 0 then 0 else \<Sum>k<D. 2 * (yp n k - y n k) * w2 j k)" for n
    by (simp add: sum_distrib_left mult_ac)
  ultimately show ?thesis
    unfolding pre_def hp_def yp_def by simp
qed

lemma loop_shapes_set_w2:
  "loop_shapes N D_in H D_out x y w1 w2 \<Longrightarrow> loop_shapes N D_in H D_out x y w1 (set_entry w2 i j v)"
  by (simp add: array_rows loop_shapes_def set_entry_wf set_entry_shape)

lemma loop_shapes_set_w1:
  "loop_shapes N D_in H D_out x y w1 w2 \<Longrightarrow> loop_shapes N D_in H D_out x y (set_entry w1 i j v) w2"
  by (simp add: array_rows loop_shapes_def set_entry_wf set_entry_shape)

lemma loss_deriv_w2:
  assumes "loop_shapes N D_in H D_out x y w1 w2" and "i < H" and "j < D_out"
  shows "((\<lambda>v. loss_at x y w1 (set_entry w2 i j v))
            has_real_derivative entry (snd (backprop x y w1 w2)) i j) (at (entry w2 i j))"
proof -
  note f = loop_shapes_facts [OF assms(1)]
  let ?hr = "\<lambda>n h. entry (relu (matmul x w1)) n h"
  have "loss_at x y w1 (set_entry w2 i j v)
          = (\<Sum>n<N. \<Sum>k<D_out.
               ((\<Sum>h<H. ?hr n h * (if h = i \<and> k = j then v else entry w2 h k)) - entry y n k)\<^sup>2)"
    for v
    unfolding loss_at_sum [OF loop_shapes_set_w2 [OF assms(1)]]
    using assms(2,3) f by (simp add: array_rows set_entry_entry cong: if_cong)
  then have "(\<lambda>v. loss_at x y w1 (set_entry w2 i j v))
          = (\<lambda>v. \<Sum>n<N. \<Sum>k<D_out.
               ((\<Sum>h<H. ?hr n h * (if h = i \<and> k = j then v else entry w2 h k)) - entry y n k)\<^sup>2)"
    by (rule ext)
  then show ?thesis
    using deriv_loss_w2 [OF assms(2,3), where N = N and hr = ?hr and w = "entry w2"
        and y = "entry y"]
    by (simp add: array_rows grad_w2_entry [OF assms])
qed

lemma loss_deriv_w1:
  assumes "loop_shapes N D_in H D_out x y w1 w2" and "i < D_in" and "j < H"
    and "\<forall>n<N. entry (matmul x w1) n j \<noteq> 0"
  shows "((\<lambda>v. loss_at x y (set_entry w1 i j v) w2)
            has_real_derivative entry (fst (backprop x y w1 w2)) i j) (at (entry w1 i j))"
proof -
  note f = loop_shapes_facts [OF assms(1)]
  have "loss_at x y (set_entry w1 i j v) w2
          = (\<Sum>n<N. \<Sum>k<D_out.
               ((\<Sum>h<H. max 0 (\<Sum>d<D_in. entry x n d * (if d = i \<and> h = j then v else entry w1 d h))
                    * entry w2 h k) - entry y n k)\<^sup>2)"
    for v
    unfolding loss_at_sum [OF loop_shapes_set_w1 [OF assms(1)]]
    using assms(2,3) f
    by (simp add: array_rows h_relu_entry [OF loop_shapes_set_w1 [OF assms(1)]] set_entry_entry cong: if_cong)
  then have eq: "(\<lambda>v. loss_at x y (set_entry w1 i j v) w2)
          = (\<lambda>v. \<Sum>n<N. \<Sum>k<D_out.
               ((\<Sum>h<H. max 0 (\<Sum>d<D_in. entry x n d * (if d = i \<and> h = j then v else entry w1 d h))
                    * entry w2 h k) - entry y n k)\<^sup>2)"
    by (rule ext)
  have nz: "\<forall>n<N. (\<Sum>d<D_in. entry x n d * entry w1 d j) \<noteq> 0"
    using assms(4) by (simp add: array_rows h_entry [OF assms(1) _ assms(3)])
  have val: "entry (fst (backprop x y w1 w2)) i j
      = (\<Sum>n<N. entry x n i *
           (if (\<Sum>d<D_in. entry x n d * entry w1 d j) < 0 then 0
            else \<Sum>k<D_out. 2 * ((\<Sum>h<H. max 0 (\<Sum>d<D_in. entry x n d * entry w1 d h) * entry w2 h k)
                                    - entry y n k) * entry w2 j k))"
    unfolding grad_w1_entry [OF assms(1,2,3)]
    by (simp add: array_rows h_entry [OF assms(1) _ assms(3)] h_relu_entry [OF assms(1)] cong: if_cong)
  show ?thesis
    unfolding eq val
    by (rule deriv_loss_w1 [where x = "entry x" and ?w1.0 = "entry w1"
          and ?w2.0 = "entry w2" and y = "entry y", OF assms(2,3) nz])
qed

lemma backprop_shapes:
  assumes "loop_shapes N D_in H D_out x y w1 w2"
  shows "wf_tensor (fst (backprop x y w1 w2))" "shape (fst (backprop x y w1 w2)) = (D_in, H)"
    "wf_tensor (snd (backprop x y w1 w2))" "shape (snd (backprop x y w1 w2)) = (H, D_out)"
  using loop_shapes_facts [OF assms]
  by (simp_all add: array_rows backprop_def Let_def matmul_wf shape_def)

lemma gradient_step_wf:
  assumes "wf_tensor w" and "wf_tensor g" and "shape g = shape w"
  shows "wf_tensor (gradient_step lr w g)" "shape (gradient_step lr w g) = shape w"
  using assms
  by (auto simp: array_rows gradient_step_def shape_def intro!: sub_wf scale_wf)

lemma gradient_step_entry:
  assumes "wf_tensor w" and "wf_tensor g" and "shape g = shape w"
    and "i < length (rows w)" and "j < ncols w"
  shows "entry (gradient_step lr w g) i j = entry w i j - lr * entry g i j"
proof -
  have "entry (sub w (scale lr g)) i j = entry w i j - entry (scale lr g) i j"
    using assms by (intro sub_entry scale_wf) (simp_all add: array_rows shape_def)
  moreover have "entry (scale lr g) i j = lr * entry g i j"
    using assms by (intro scale_entry) (simp_all add: array_rows shape_def)
  ultimately show ?thesis by (simp add: gradient_step_def)
qed

lemma warmup_step_shapes:
  assumes "loop_shapes N D_in H D_out x y w1 w2"
  shows "loop_shapes N D_in H D_out x y (fst (warmup_step lr x y (w1, w2)))
           (snd (warmup_step lr x y (w1, w2)))"
proof -
  note f = loop_shapes_facts [OF assms] and b = backprop_shapes [OF assms]
  have s1: "shape w1 = (D_in, H)" and s2: "shape w2 = (H, D_out)"
    using f by (simp_all add: array_rows shape_def)
  show ?thesis
    using assms gradient_step_wf [OF f(7) b(1), of lr] gradient_step_wf [OF f(10) b(3), of lr]
      b(2,4) s1 s2
    by (simp add: array_rows loop_shapes_def warmup_step_def Let_def)
qed

lemma warmup_loop_shapes:
  "loop_shapes N D_in H D_out x y (fst w) (snd w) \<Longrightarrow>
   loop_shapes N D_in H D_out x y (fst (warmup_loop t lr x y w)) (snd (warmup_loop t lr x y w))"
proof (induction t arbitrary: w)
  case 0
  then show ?case by simp
next
  case (Suc t)
  have "loop_shapes N D_in H D_out x y (fst (warmup_step lr x y w)) (snd (warmup_step lr x y w))"
    using warmup_step_shapes [OF Suc.prems, of lr] by simp
  then show ?case using Suc.IH by simp
qed

text \<open>
  Claim C1, amended. Gradient computation and the gradient-descent parameter update
  are implemented by the notebook's own code in the warm-up training loops of the
  AutoGrad notebook. With arrays of the shapes the notebook creates, every iteration
  keeps these shapes, and its hand-written backward pass computes the gradient of the
  loss: \<open>grad_w2\<close> holds the partial derivative of the loss with respect to every entry of
  \<open>w2\<close>, and \<open>grad_w1\<close> the partial derivative with respect to every entry of \<open>w1\<close> in a column
  in which no hidden pre-activation is zero; the update replaces every weight \<open>w\<close> by
  \<open>w - learning_rate * grad\<close>.
\<close>

theorem warmup_step_descends_by_hand:
  assumes "loop_shapes N D_in H D_out x y w1 w2"
  shows "loop_shapes N D_in H D_out x y (fst (warmup_loop t lr x y (w1, w2)))
           (snd (warmup_loop t lr x y (w1, w2)))
   \<and> (\<forall>i<H. \<forall>j<D_out.
         ((\<lambda>v. loss_at x y w1 (set_entry w2 i j v))
            has_real_derivative entry (snd (backprop x y w1 w2)) i j) (at (entry w2 i j))
         \<and> entry (snd (warmup_step lr x y (w1, w2))) i j
             = entry w2 i j - lr * entry (snd (backprop x y w1 w2)) i j)
   \<and> (\<forall>i<D_in. \<forall>j<H.
         ((\<forall>n<N. entry (matmul x w1) n j \<noteq> 0) \<longrightarrow>
            ((\<lambda>v. loss_at x y (set_entry w1 i j v) w2)
               has_real_derivative entry (fst (backprop x y w1 w2)) i j) (at (entry w1 i j)))
         \<and> entry (fst (warmup_step lr x y (w1, w2))) i j
             = entry w1 i j - lr * entry (fst (backprop x y w1 w2)) i j)"
proof (intro conjI allI impI)
  show "loop_shapes N D_in H D_out x y (fst (warmup_loop t lr x y (w1, w2)))
           (snd (warmup_loop t lr x y (w1, w2)))"
    using warmup_loop_shapes [of N D_in H D_out x y "(w1, w2)" t lr] assms by simp
next
  fix i j assume "i < H" "j < D_out"
  then show "((\<lambda>v. loss_at x y w1 (set_entry w2 i j v))
            has_real_derivative entry (snd (backprop x y w1 w2)) i j) (at (entry w2 i j))"
    using assms by (intro loss_deriv_w2)
next
  fix i j assume ij: "i < H" "j < D_out"
  note f = loop_shapes_facts [OF assms] and b = backprop_shapes [OF assms]
  show "entry (snd (warmup_step lr x y (w1, w2))) i j
             = entry w2 i j - lr * entry (snd (backprop x y w1 w2)) i j"
    using gradient_step_entry [OF f(10) b(3), of i j lr] ij f b(4)
    by (simp add: array_rows warmup_step_def Let_def shape_def)
next
  fix i j assume "i < D_in" "j < H" "\<forall>n<N. entry (matmul x w1) n j \<noteq> 0"
  then show "((\<lambda>v. loss_at x y (set_entry w1 i j v) w2)
               has_real_derivative entry (fst (backprop x y w1 w2)) i j) (at (entry w1 i j))"
    using assms by (intro loss_deriv_w1)
next
  fix i j assume ij: "i < D_in" "j < H"
  note f = loop_shapes_facts [OF assms] and b = backprop_shapes [OF assms]
  show "entry (fst (warmup_step lr x y (w1, w2))) i j
             = entry w1 i j - lr * entry (fst (backprop x y w1 w2)) i j"
    using gradient_step_entry [OF f(7) b(1), of i j lr] ij f b(2)
    by (simp add: array_rows warmup_step_def Let_def shape_def)
qed

lemmas array_ops = matmul_def transposed_def column_def sub_def scale_def relu_def
  zero_where_negative_def square_sum_def dot_def upt_rec

lemma demo_shapes: "loop_shapes 2 2 2 1 demo_x demo_y demo_w1 demo_w2"
  by (simp add: loop_shapes_def wf_tensor_def shape_def demo_x_def demo_y_def demo_w1_def
      demo_w2_def)

lemma demo_backprop:
  "backprop demo_x demo_y demo_w1 demo_w2
     = (\<lparr>ncols = 2, rows = [[0, 0], [6, 6]]\<rparr>, \<lparr>ncols = 1, rows = [[12], [6]]\<rparr>)"
  by (simp add: backprop_def Let_def demo_x_def demo_y_def demo_w1_def demo_w2_def array_ops)

lemma demo_step:
  "warmup_step (1 / 12) demo_x demo_y (demo_w1, demo_w2)
     = (\<lparr>ncols = 2, rows = [[1, - 1], [3 / 2, 1 / 2]]\<rparr>, \<lparr>ncols = 1, rows = [[0], [1 / 2]]\<rparr>)"
  unfolding warmup_step_def Let_def fst_conv snd_conv demo_backprop
  by (simp add: gradient_step_def demo_w1_def demo_w2_def sub_def scale_def)

text \<open>
  Claim C1, as stated, fails: the body of the warm-up loop is written in the notebook
  and is a step of gradient descent. On the small instance it computes the gradients
  \<open>grad_w1\<close> and \<open>grad_w2\<close>, subtracts \<open>learning_rate\<close> times them from the weights, and the
  loss falls from 9 to 17/16.
\<close>

theorem own_gradient_descent_counterexample:
  "backprop demo_x demo_y demo_w1 demo_w2
     = (\<lparr>ncols = 2, rows = [[0, 0], [6, 6]]\<rparr>, \<lparr>ncols = 1, rows = [[12], [6]]\<rparr>)
   \<and> warmup_step (1 / 12) demo_x demo_y (demo_w1, demo_w2)
     = (\<lparr>ncols = 2, rows = [[1, - 1], [3 / 2, 1 / 2]]\<rparr>, \<lparr>ncols = 1, rows = [[0], [1 / 2]]\<rparr>)
   \<and> warmup_step (1 / 12) demo_x demo_y (demo_w1, demo_w2) \<noteq> (demo_w1, demo_w2)
   \<and> loss_at demo_x demo_y demo_w1 demo_w2 = 9
   \<and> loss_at demo_x demo_y \<lparr>ncols = 2, rows = [[1, - 1], [3 / 2, 1 / 2]]\<rparr>
        \<lparr>ncols = 1, rows = [[0], [1 / 2]]\<rparr> = 17 / 16"
proof -
  have "loss_at demo_x demo_y demo_w1 demo_w2 = 9"
    by (simp add: loss_at_def Let_def demo_x_def demo_y_def demo_w1_def demo_w2_def array_ops)
  moreover have "loss_at demo_x demo_y \<lparr>ncols = 2, rows = [[1, - 1], [3 / 2, 1 / 2]]\<rparr>
        \<lparr>ncols = 1, rows = [[0], [1 / 2]]\<rparr> = 17 / 16"
    by (simp add: loss_at_def Let_def demo_x_def demo_y_def array_ops power2_eq_square)
  moreover have "warmup_step (1 / 12) demo_x demo_y (demo_w1, demo_w2) \<noteq> (demo_w1, demo_w2)"
    unfolding demo_step by (simp add: demo_w1_def)
  ultimately show ?thesis using demo_backprop demo_step by simp
qed

theorem warmup_step_descends_by_hand_witness:
  "loop_shapes 2 2 2 1 demo_x demo_y demo_w1 demo_w2
   \<and> ((\<lambda>v. loss_at demo_x demo_y demo_w1 (set_entry demo_w2 0 0 v)) has_real_derivative 12) (at 1)
   \<and> entry (snd (warmup_step (1 / 12) demo_x demo_y (demo_w1, demo_w2))) 0 0 = 1 - 1 / 12 * 12
   \<and> entry (matmul demo_x demo_w1) 0 0 \<noteq> 0 \<and> entry (matmul demo_x demo_w1) 1 0 \<noteq> 0
   \<and> ((\<lambda>v. loss_at demo_x demo_y (set_entry demo_w1 1 0 v) demo_w2) has_real_derivative 6) (at 2)
   \<and> entry (fst (warmup_step (1 / 12) demo_x demo_y (demo_w1, demo_w2))) 1 0 = 2 - 1 / 12 * 6"
proof -
  note t = warmup_step_descends_by_hand [OF demo_shapes, of 0 "1 / 12"]
  have g2: "entry (snd (backprop demo_x demo_y demo_w1 demo_w2)) 0 0 = 12"
    and g1: "entry (fst (backprop demo_x demo_y demo_w1 demo_w2)) 1 0 = 6"
    unfolding demo_backprop by (simp_all add: entry_def)
  have e2: "entry demo_w2 0 0 = 1" and e1: "entry demo_w1 1 0 = 2"
    by (simp_all add: entry_def demo_w1_def demo_w2_def)
  have nz: "\<forall>n<2. entry (matmul demo_x demo_w1) n 0 \<noteq> 0"
    by (simp add: demo_x_def demo_w1_def array_ops entry_def less_2_cases_iff)
  have i0: "(0::nat) < 2" and i1: "(1::nat) < 2" and j0: "(0::nat) < 1" by simp_all
  from t have w2: "((\<lambda>v. loss_at demo_x demo_y demo_w1 (set_entry demo_w2 0 0 v))
            has_real_derivative entry (snd (backprop demo_x demo_y demo_w1 demo_w2)) 0 0)
            (at (entry demo_w2 0 0))"
    and u2: "entry (snd (warmup_step (1 / 12) demo_x demo_y (demo_w1, demo_w2))) 0 0
             = entry demo_w2 0 0 - 1 / 12 * entry (snd (backprop demo_x demo_y demo_w1 demo_w2)) 0 0"
    using i0 j0 by blast+
  from t nz have w1: "((\<lambda>v. loss_at demo_x demo_y (set_entry demo_w1 1 0 v) demo_w2)
            has_real_derivative entry (fst (backprop demo_x demo_y demo_w1 demo_w2)) 1 0)
            (at (entry demo_w1 1 0))"
    and u1: "entry (fst (warmup_step (1 / 12) demo_x demo_y (demo_w1, demo_w2))) 1 0
             = entry demo_w1 1 0 - 1 / 12 * entry (fst (backprop demo_x demo_y demo_w1 demo_w2)) 1 0"
    using i1 i0 by blast+
  have nz0: "entry (matmul demo_x demo_w1) 0 0 \<noteq> 0"
    and nz1: "entry (matmul demo_x demo_w1) 1 0 \<noteq> 0"
    using nz by simp_all
  show ?thesis
    using demo_shapes w2 u2 nz0 nz1 w1 u1 unfolding g1 g2 e1 e2 by blast
qed

end
